theory Spec2Isabelle
  imports Complex_Main "HOL-Library.Word"
begin

text \<open>
  A shallow embedding of \<^verbatim>\<open>feature_reflect.go\<close> of the JSON iterator package: the
  number scanner and \<^verbatim>\<open>ReadAny\<close>, the decoder compiler with its registry and its
  cache, the optional decoder, and the entry point \<^verbatim>\<open>Read\<close>; followed by the
  properties of these that the specification states.
\<close>

section \<open>Errors and outcomes\<close>

text \<open>
  A Go \<^verbatim>\<open>error\<close> value is either the sentinel \<^verbatim>\<open>io.EOF\<close> (which \<^verbatim>\<open>readNumber\<close>
  compares by identity) or any other error, identified by the text its \<^verbatim>\<open>Error()\<close>
  method returns (\<^verbatim>\<open>errors.New\<close>, \<^verbatim>\<open>fmt.Errorf\<close>, the errors of \<^verbatim>\<open>strconv\<close>
  and of an \<^verbatim>\<open>io.Reader\<close>). A nil error is \<open>None\<close> of \<open>error option\<close>.
\<close>

datatype error = EOF | errorString string

fun Error_text :: "error \<Rightarrow> string" where
  "Error_text EOF = ''EOF''"
| "Error_text (errorString s) = s"

text \<open>
  A call either returns, or panics (an index out of range, a nil dereference, a
  \<^verbatim>\<open>reflect\<close> method used on the wrong kind), or, for the recursive descent of
  \<^verbatim>\<open>ReadAny\<close> over a token source that is a parameter, runs out of fuel.
\<close>

datatype 'a outcome = Return 'a | Panic | OutOfFuel

section \<open>The iterator\<close>

text \<open>
  The fields of \<^verbatim>\<open>Iterator\<close> that \<^verbatim>\<open>feature_reflect.go\<close> touches: \<^verbatim>\<open>buf\<close>,
  \<^verbatim>\<open>head\<close>, \<^verbatim>\<open>tail\<close> and \<^verbatim>\<open>Error\<close>. The input that the reader behind
  \<^verbatim>\<open>loadMore\<close> has still to deliver is \<open>reader\<close>, a list of chunks, and
  \<open>readerEnd\<close> is the error the reader gives once the chunks are used up
  (\<^verbatim>\<open>io.EOF\<close> for an orderly end, also when there is no reader at all).
\<close>

record Iterator =
  buf :: string
  head :: nat
  tail :: nat
  Error :: "error option"
  reader :: "string list"
  readerEnd :: error

text \<open>
  Modelled from the spec: \<^verbatim>\<open>loadMore\<close>, the buffer-refill primitive of the token source,
  which \<^verbatim>\<open>feature_reflect.go\<close> calls and another file of the package declares. It
  returns whether more input was available; a refill replaces the buffer window, and the
  end of the input is reported through the error slot.
\<close>

definition loadMore :: "Iterator \<Rightarrow> bool \<times> Iterator" where
  "loadMore iter =
     (case reader iter of
        [] \<Rightarrow> (False, iter\<lparr>Error := Some (readerEnd iter)\<rparr>)
      | chunk # rest \<Rightarrow>
          (True, iter\<lparr>buf := chunk, head := 0, tail := length chunk, reader := rest\<rparr>))"

section \<open>Dynamic values\<close>

text \<open>
  The values an \<^verbatim>\<open>interface{}\<close> holds inside an \<^verbatim>\<open>Any\<close>: nil, a string, a bool,
  a \<^verbatim>\<open>float64\<close>, an \<^verbatim>\<open>int64\<close>, a \<^verbatim>\<open>uint64\<close>, a \<^verbatim>\<open>[]interface{}\<close> and a
  \<^verbatim>\<open>map[string]interface{}\<close>. A \<^verbatim>\<open>float64\<close> that \<^verbatim>\<open>strconv.ParseFloat\<close>
  returns without an error is finite, and is represented by the real number it denotes.
\<close>

datatype "value" =
    nil_v
  | string_v string
  | bool_v bool
  | float64_v real
  | int64_v "64 word"
  | uint64_v "64 word"
  | slice_v "value list"
  | map_v "string \<Rightarrow> value option"

text \<open>
  Modelled from the spec: \<^verbatim>\<open>Any\<close> and \<^verbatim>\<open>MakeAny\<close>, which another file of the package
  declares. \<^verbatim>\<open>ReadAny\<close> reads the field \<^verbatim>\<open>val\<close> of the
  \<^verbatim>\<open>Any\<close> that \<^verbatim>\<open>MakeAny\<close> wraps around a dynamic value. A \<^verbatim>\<open>*Any\<close> is an
  \<open>Any option\<close>, \<open>None\<close> the nil pointer.
\<close>

datatype Any = MakeAny (val: "value")

section \<open>The number scanner\<close>

text \<open>
  The numeric parsers of \<^verbatim>\<open>strconv\<close> are parameters: \<^verbatim>\<open>ParseFloat(s, 64)\<close>,
  \<^verbatim>\<open>ParseInt(s, 10, 64)\<close> and \<^verbatim>\<open>ParseUint(s, 10, 64)\<close>.
\<close>

record strconv =
  ParseFloat :: "string \<Rightarrow> error + real"
  ParseInt :: "string \<Rightarrow> error + 64 word"
  ParseUint :: "string \<Rightarrow> error + 64 word"

text \<open>The locals of \<^verbatim>\<open>readNumber\<close> that live across its loops.\<close>

record numberScan =
  str :: string
  foundFloat :: bool
  foundNegative :: bool

text \<open>
  The cases of the \<^verbatim>\<open>switch c\<close>: \<^verbatim>\<open>'-'\<close>; then
  \<^verbatim>\<open>'+', '0', ..., '9'\<close>; then \<^verbatim>\<open>'.', 'e', 'E'\<close>; anything else is the
  \<^verbatim>\<open>default\<close> case.
\<close>

definition plusOrDigit :: "char \<Rightarrow> bool" where
  "plusOrDigit c = (c \<in> set ''+0123456789'')"

definition floatMark :: "char \<Rightarrow> bool" where
  "floatMark c = (c \<in> set ''.eE'')"

text \<open>
  The \<^verbatim>\<open>switch c\<close> of the inner loop. The three numeric cases append \<open>c\<close> to
  \<^verbatim>\<open>str\<close> (the first and the third also set a flag) and \<^verbatim>\<open>continue\<close>; that is
  \<open>Some\<close> of the new locals. The \<^verbatim>\<open>default\<close> case is \<open>None\<close>.
\<close>

definition scanChar :: "char \<Rightarrow> numberScan \<Rightarrow> numberScan option" where
  "scanChar c st =
     (if c = CHR ''-'' then Some (st\<lparr>foundNegative := True, str := str st @ [c]\<rparr>)
      else if plusOrDigit c then Some (st\<lparr>str := str st @ [c]\<rparr>)
      else if floatMark c then Some (st\<lparr>foundFloat := True, str := str st @ [c]\<rparr>)
      else None)"

text \<open>
  The inner loop, \<^verbatim>\<open>for i := iter.head; i < iter.tail; i++\<close>. The result carries
  \<^verbatim>\<open>hasMore\<close>: it is still true when the window is used up, and false when the
  \<^verbatim>\<open>default\<close> case has set \<^verbatim>\<open>iter.head = i\<close> and left the loop. Reading
  \<^verbatim>\<open>iter.buf[i]\<close> beyond the buffer panics.
\<close>

function scanBuf :: "Iterator \<Rightarrow> nat \<Rightarrow> numberScan \<Rightarrow> (bool \<times> Iterator \<times> numberScan) outcome" where
  "scanBuf iter i st =
     (if i < tail iter then
        (if length (buf iter) \<le> i then Panic
         else
           (case scanChar (buf iter ! i) st of
              Some st' \<Rightarrow> scanBuf iter (Suc i) st'
            | None \<Rightarrow> Return (False, iter\<lparr>head := i\<rparr>, st)))
      else Return (True, iter, st))"
  by pat_completeness auto
termination
  by (relation "measure (\<lambda>(iter, i, st). tail iter - i)") auto

declare scanBuf.simps [simp del]

lemma scanBuf_reader_case:
  "(case scanBuf iter i st of
      Return (hm, iter', st') \<Rightarrow> reader iter' = reader iter
    | _ \<Rightarrow> True)"
proof (induction iter i st rule: scanBuf.induct)
  case (1 iter i st)
  show ?case
    by (subst scanBuf.simps) (use 1 in \<open>simp split: option.splits\<close>)
qed

lemma scanBuf_reader:
  "scanBuf iter i st = Return (hm, iter', st') \<Longrightarrow> reader iter' = reader iter"
  using scanBuf_reader_case [of iter i st] by simp

lemma loadMore_reader:
  "loadMore iter = (True, iter') \<Longrightarrow> length (reader iter') < length (reader iter)"
  by (auto simp: loadMore_def split: list.splits)

text \<open>The outer loop, \<^verbatim>\<open>for hasMore\<close>, refilling the buffer when a window is used up.\<close>

function scanLoop :: "Iterator \<Rightarrow> numberScan \<Rightarrow> (Iterator \<times> numberScan) outcome" where
  "scanLoop iter st =
     (case scanBuf iter (head iter) st of
        Panic \<Rightarrow> Panic
      | OutOfFuel \<Rightarrow> OutOfFuel
      | Return (hasMore, iter1, st1) \<Rightarrow>
          if hasMore then
            (case loadMore iter1 of
               (True, iter2) \<Rightarrow> scanLoop iter2 st1
             | (False, iter2) \<Rightarrow> Return (iter2, st1))
          else Return (iter1, st1))"
  by pat_completeness auto
termination
  apply (relation "measure (\<lambda>(iter, st). length (reader iter))")
   apply simp
  apply (auto dest!: scanBuf_reader)
  apply (drule sym)
  apply (drule loadMore_reader)
  apply simp
  done

declare scanLoop.simps [simp del]

text \<open>\<^verbatim>\<open>readNumber\<close>: scan, then classify by the two flags and parse.\<close>

definition readNumber :: "strconv \<Rightarrow> Iterator \<Rightarrow> (Any option \<times> Iterator) outcome" where
  "readNumber sc iter =
     (case scanLoop iter \<lparr>str = [], foundFloat = False, foundNegative = False\<rparr> of
        Panic \<Rightarrow> Panic
      | OutOfFuel \<Rightarrow> OutOfFuel
      | Return (iter1, st) \<Rightarrow>
          if Error iter1 \<noteq> None \<and> Error iter1 \<noteq> Some EOF then Return (None, iter1)
          else
            (let number = str st in
             if foundFloat st then
               (case ParseFloat sc number of
                  Inl err \<Rightarrow> Return (None, iter1\<lparr>Error := Some err\<rparr>)
                | Inr v \<Rightarrow> Return (Some (MakeAny (float64_v v)), iter1))
             else if foundNegative st then
               (case ParseInt sc number of
                  Inl err \<Rightarrow> Return (None, iter1\<lparr>Error := Some err\<rparr>)
                | Inr v \<Rightarrow> Return (Some (MakeAny (int64_v v)), iter1))
             else
               (case ParseUint sc number of
                  Inl err \<Rightarrow> Return (None, iter1\<lparr>Error := Some err\<rparr>)
                | Inr v \<Rightarrow> Return (Some (MakeAny (uint64_v v)), iter1))))"

section \<open>The token source\<close>

text \<open>
  The kinds \<^verbatim>\<open>WhatIsNext\<close> tells apart, as \<^verbatim>\<open>ReadAny\<close> names them. \<^verbatim>\<open>ValueType\<close>
  is declared with the tokenizer, in another file of the package; any value of
  the type other than the six that \<^verbatim>\<open>ReadAny\<close> names is \<open>OtherValueType\<close>, and falls
  to the \<^verbatim>\<open>default\<close> case of its switch.
\<close>

datatype ValueType = String | Number | Null | Bool | Array | Object | OtherValueType nat

text \<open>
  The methods of \<^verbatim>\<open>Iterator\<close> that the tokenizer defines are parameters: each takes
  the iterator and returns its result with the iterator it leaves. \<open>formatValueType\<close>
  is what \<^verbatim>\<open>fmt.Sprintf("%v", valueType)\<close> prints, and \<open>parsers\<close> are the numeric
  parsers of \<^verbatim>\<open>strconv\<close>.
\<close>

record tokenSource =
  WhatIsNext :: "Iterator \<Rightarrow> ValueType \<times> Iterator"
  ReadString :: "Iterator \<Rightarrow> string \<times> Iterator"
  ReadBool :: "Iterator \<Rightarrow> bool \<times> Iterator"
  ReadNil :: "Iterator \<Rightarrow> bool \<times> Iterator"
  ReadArray :: "Iterator \<Rightarrow> bool \<times> Iterator"
  ReadObject :: "Iterator \<Rightarrow> string \<times> Iterator"
  reportError :: "string \<Rightarrow> string \<Rightarrow> Iterator \<Rightarrow> Iterator"
  formatValueType :: "ValueType \<Rightarrow> string"
  parsers :: strconv

section \<open>\<^verbatim>\<open>ReadAny\<close>\<close>

text \<open>
  \<^verbatim>\<open>ReadAny\<close> with its two loops. The token source decides how long the loops run,
  so the recursion is bounded by fuel, and \<open>OutOfFuel\<close> stands for a call that has not
  returned within it. The named result \<^verbatim>\<open>ret\<close> is nil at a bare \<^verbatim>\<open>return\<close>, that is
  \<open>None\<close>. \<^verbatim>\<open>element.val\<close> on a nil \<^verbatim>\<open>element\<close> panics. The local \<^verbatim>\<open>val\<close> of
  either loop is \<open>vals\<close> here, and in the object loop \<open>field\<close> is the name the last
  \<^verbatim>\<open>ReadObject\<close> returned.
\<close>

fun ReadAny :: "nat \<Rightarrow> tokenSource \<Rightarrow> Iterator \<Rightarrow> (Any option \<times> Iterator) outcome"
  and readArrayLoop :: "nat \<Rightarrow> tokenSource \<Rightarrow> value list \<Rightarrow> Iterator \<Rightarrow> (Any option \<times> Iterator) outcome"
  and readObjectLoop :: "nat \<Rightarrow> tokenSource \<Rightarrow> (string \<Rightarrow> value option) \<Rightarrow> string \<Rightarrow> Iterator \<Rightarrow> (Any option \<times> Iterator) outcome"
where
  "ReadAny 0 ts iter = OutOfFuel"
| "ReadAny (Suc n) ts iter =
     (case WhatIsNext ts iter of (valueType, iter1) \<Rightarrow>
        (case valueType of
           String \<Rightarrow> (case ReadString ts iter1 of (s, iter2) \<Rightarrow> Return (Some (MakeAny (string_v s)), iter2))
         | Number \<Rightarrow> readNumber (parsers ts) iter1
         | Null \<Rightarrow> Return (Some (MakeAny nil_v), iter1)
         | Bool \<Rightarrow> (case ReadBool ts iter1 of (b, iter2) \<Rightarrow> Return (Some (MakeAny (bool_v b)), iter2))
         | Array \<Rightarrow> readArrayLoop n ts [] iter1
         | Object \<Rightarrow> (case ReadObject ts iter1 of (field, iter2) \<Rightarrow> readObjectLoop n ts Map.empty field iter2)
         | OtherValueType k \<Rightarrow>
             Return (Some (MakeAny nil_v),
               reportError ts ''ReadAny'' (''unexpected value type: '' @ formatValueType ts valueType) iter1)))"
| "readArrayLoop 0 ts vals iter = OutOfFuel"
| "readArrayLoop (Suc n) ts vals iter =
     (case ReadArray ts iter of (more_elements, iter1) \<Rightarrow>
        if more_elements then
          (case ReadAny n ts iter1 of
             Return (element, iter2) \<Rightarrow>
               if Error iter2 \<noteq> None then Return (None, iter2)
               else (case element of
                       None \<Rightarrow> Panic
                     | Some e \<Rightarrow> readArrayLoop n ts (vals @ [val e]) iter2)
           | Panic \<Rightarrow> Panic
           | OutOfFuel \<Rightarrow> OutOfFuel)
        else Return (Some (MakeAny (slice_v vals)), iter1))"
| "readObjectLoop 0 ts vals field iter = OutOfFuel"
| "readObjectLoop (Suc n) ts vals field iter =
     (if field \<noteq> [] then
        (case ReadAny n ts iter of
           Return (element, iter2) \<Rightarrow>
             if Error iter2 \<noteq> None then Return (None, iter2)
             else (case element of
                     None \<Rightarrow> Panic
                   | Some e \<Rightarrow>
                       (case ReadObject ts iter2 of (field', iter3) \<Rightarrow>
                          readObjectLoop n ts (vals(field \<mapsto> val e)) field' iter3))
         | Panic \<Rightarrow> Panic
         | OutOfFuel \<Rightarrow> OutOfFuel)
      else Return (Some (MakeAny (map_v vals)), iter))"

section \<open>Type descriptors\<close>

text \<open>
  The kinds of \<^verbatim>\<open>reflect.Kind\<close>, named as the source names them (\<^verbatim>\<open>reflect.Ptr\<close>,
  \<^verbatim>\<open>reflect.Map\<close>, ...).
\<close>

datatype Kind =
    reflect_Invalid | reflect_Bool
  | reflect_Int | reflect_Int8 | reflect_Int16 | reflect_Int32 | reflect_Int64
  | reflect_Uint | reflect_Uint8 | reflect_Uint16 | reflect_Uint32 | reflect_Uint64
  | reflect_Uintptr
  | reflect_Float32 | reflect_Float64 | reflect_Complex64 | reflect_Complex128
  | reflect_Array | reflect_Chan | reflect_Func | reflect_Interface | reflect_Map
  | reflect_Ptr | reflect_Slice | reflect_String | reflect_Struct | reflect_UnsafePointer

text \<open>
  A \<^verbatim>\<open>reflect.Type\<close>, as far as the compiler looks at it: \<^verbatim>\<open>Kind()\<close>,
  \<^verbatim>\<open>String()\<close>, \<^verbatim>\<open>Elem()\<close> and \<^verbatim>\<open>Key()\<close>. \<^verbatim>\<open>Elem()\<close> panics on a kind that
  has no element type; that is \<open>Elem typ = None\<close>.
\<close>

datatype rtype = rtype (Kind: Kind) (TypeString: string) (Elem: "rtype option") (Key: "rtype option")

section \<open>Decoders\<close>

text \<open>
  A \<^verbatim>\<open>DecoderFunc\<close> is a function value of the caller, known by its identity. The
  decoders are those \<^verbatim>\<open>feature_reflect.go\<close> declares (\<^verbatim>\<open>funcDecoder\<close>,
  \<^verbatim>\<open>optionalDecoder\<close>, \<^verbatim>\<open>mapDecoder\<close>) or constructs by name; \<open>otherDecoder\<close> is
  a decoder of a type declared elsewhere, such as the ones \<^verbatim>\<open>decoderOfStruct\<close> returns.
  The fourth field of a \<^verbatim>\<open>mapDecoder\<close>, \<^verbatim>\<open>mapInterface\<close>, is the interface header of
  a fresh pointer to a map of \<^verbatim>\<open>mapType\<close>; its data word is overwritten before every
  use (\<^verbatim>\<open>mapInterface.word = ptr\<close>) and its type word is given by \<^verbatim>\<open>mapType\<close>, so it
  is left out.
\<close>

type_synonym DecoderFunc = nat

datatype Decoder =
    funcDecoder DecoderFunc
  | anyDecoder
  | stringDecoder
  | intDecoder | int8Decoder | int16Decoder | int32Decoder | int64Decoder
  | uintDecoder | uint8Decoder | uint16Decoder | uint32Decoder | uint64Decoder
  | float32Decoder | float64Decoder
  | boolDecoder
  | interfaceDecoder
  | optionalDecoder rtype Decoder
  | sliceDecoder rtype rtype Decoder
  | mapDecoder rtype rtype Decoder
  | otherDecoder nat

section \<open>The package-level variables\<close>

text \<open>
  \<^verbatim>\<open>typeDecoders\<close>, \<^verbatim>\<open>fieldDecoders\<close>, \<^verbatim>\<open>extensions\<close>, and the cache: the pointer
  \<^verbatim>\<open>DECODERS\<close> and the maps it has pointed to, each at its address (its index in
  \<open>maps\<close>). A Go map of \<^verbatim>\<open>Decoder\<close> interface values gives, for a key, nothing or a
  \<^verbatim>\<open>Decoder\<close> that may be nil; a \<^verbatim>\<open>Decoder\<close> that may be nil is a \<open>Decoder option\<close>.
\<close>

record Globals =
  typeDecoders :: "string \<Rightarrow> Decoder option"
  fieldDecoders :: "string \<Rightarrow> Decoder option"
  extensions :: "nat list"
  DECODERS :: nat
  maps :: "(rtype \<Rightarrow> Decoder option option) list"

section \<open>The decoder compiler\<close>

text \<open>
  \<^verbatim>\<open>prefix(p).addTo(decoder, err)\<close>. The compiling functions return a decoder or an
  error, never both: \<open>Inl\<close> the error.
\<close>

definition addTo :: "string \<Rightarrow> (error + Decoder) outcome \<Rightarrow> (error + Decoder) outcome" where
  "addTo p r =
     (case r of
        Return (Inl err) \<Rightarrow> Return (Inl (errorString (p @ '': '' @ Error_text err)))
      | Return (Inr decoder) \<Rightarrow> Return (Inr decoder)
      | Panic \<Rightarrow> Panic
      | OutOfFuel \<Rightarrow> OutOfFuel)"

text \<open>An element type is smaller than its type: the compiler's recursion ends.\<close>

lemma size_Elem: "Elem typ = Some e \<Longrightarrow> size e < size typ"
  by (cases "typ") simp

text \<open>
  \<^verbatim>\<open>decoderOfPtr\<close>, \<^verbatim>\<open>decoderOfOptional\<close>, \<^verbatim>\<open>decoderOfSlice\<close> and
  \<^verbatim>\<open>decoderOfMap\<close>. \<^verbatim>\<open>decoderOfStruct\<close> is declared in another file of the package,
  and is a parameter.
\<close>

function decoderOfPtr :: "(Globals \<Rightarrow> rtype \<Rightarrow> (error + Decoder) outcome) \<Rightarrow> Globals \<Rightarrow> rtype \<Rightarrow> (error + Decoder) outcome"
  and decoderOfOptional :: "(Globals \<Rightarrow> rtype \<Rightarrow> (error + Decoder) outcome) \<Rightarrow> Globals \<Rightarrow> rtype \<Rightarrow> (error + Decoder) outcome"
  and decoderOfSlice :: "(Globals \<Rightarrow> rtype \<Rightarrow> (error + Decoder) outcome) \<Rightarrow> Globals \<Rightarrow> rtype \<Rightarrow> (error + Decoder) outcome"
  and decoderOfMap :: "(Globals \<Rightarrow> rtype \<Rightarrow> (error + Decoder) outcome) \<Rightarrow> Globals \<Rightarrow> rtype \<Rightarrow> (error + Decoder) outcome"
where
  "decoderOfPtr decoderOfStruct G typ =
     (if TypeString typ = ''jsoniter.Any'' then Return (Inr anyDecoder)
      else
        (case typeDecoders G (TypeString typ) of
           Some typeDecoder \<Rightarrow> Return (Inr typeDecoder)
         | None \<Rightarrow>
             (case Kind typ of
                reflect_String \<Rightarrow> Return (Inr stringDecoder)
              | reflect_Int \<Rightarrow> Return (Inr intDecoder)
              | reflect_Int8 \<Rightarrow> Return (Inr int8Decoder)
              | reflect_Int16 \<Rightarrow> Return (Inr int16Decoder)
              | reflect_Int32 \<Rightarrow> Return (Inr int32Decoder)
              | reflect_Int64 \<Rightarrow> Return (Inr int64Decoder)
              | reflect_Uint \<Rightarrow> Return (Inr uintDecoder)
              | reflect_Uint8 \<Rightarrow> Return (Inr uint8Decoder)
              | reflect_Uint16 \<Rightarrow> Return (Inr uint16Decoder)
              | reflect_Uint32 \<Rightarrow> Return (Inr uint32Decoder)
              | reflect_Uint64 \<Rightarrow> Return (Inr uint64Decoder)
              | reflect_Float32 \<Rightarrow> Return (Inr float32Decoder)
              | reflect_Float64 \<Rightarrow> Return (Inr float64Decoder)
              | reflect_Bool \<Rightarrow> Return (Inr boolDecoder)
              | reflect_Interface \<Rightarrow> Return (Inr interfaceDecoder)
              | reflect_Struct \<Rightarrow> decoderOfStruct G typ
              | reflect_Slice \<Rightarrow> addTo ''[slice]'' (decoderOfSlice decoderOfStruct G typ)
              | reflect_Map \<Rightarrow> addTo ''[map]'' (decoderOfMap decoderOfStruct G typ)
              | reflect_Ptr \<Rightarrow>
                  (case Elem typ of
                     None \<Rightarrow> Panic
                   | Some e \<Rightarrow> addTo ''[optional]'' (decoderOfOptional decoderOfStruct G e))
              | _ \<Rightarrow> Return (Inl (errorString (''unsupported type: '' @ TypeString typ))))))"
| "decoderOfOptional decoderOfStruct G typ =
     (case decoderOfPtr decoderOfStruct G typ of
        Return (Inl err) \<Rightarrow> Return (Inl err)
      | Return (Inr decoder) \<Rightarrow> Return (Inr (optionalDecoder typ decoder))
      | Panic \<Rightarrow> Panic
      | OutOfFuel \<Rightarrow> OutOfFuel)"
| "decoderOfSlice decoderOfStruct G typ =
     (case Elem typ of
        None \<Rightarrow> Panic
      | Some e \<Rightarrow>
          (case decoderOfPtr decoderOfStruct G e of
             Return (Inl err) \<Rightarrow> Return (Inl err)
           | Return (Inr decoder) \<Rightarrow> Return (Inr (sliceDecoder typ e decoder))
           | Panic \<Rightarrow> Panic
           | OutOfFuel \<Rightarrow> OutOfFuel))"
| "decoderOfMap decoderOfStruct G typ =
     (case Elem typ of
        None \<Rightarrow> Panic
      | Some e \<Rightarrow>
          (case decoderOfPtr decoderOfStruct G e of
             Return (Inl err) \<Rightarrow> Return (Inl err)
           | Return (Inr decoder) \<Rightarrow> Return (Inr (mapDecoder typ e decoder))
           | Panic \<Rightarrow> Panic
           | OutOfFuel \<Rightarrow> OutOfFuel))"
  by pat_completeness auto
termination
  apply (relation "measure (\<lambda>x. case x of
      Inl (Inl (s, G, typ)) \<Rightarrow> 3 * size typ + 1
    | Inl (Inr (s, G, typ)) \<Rightarrow> 3 * size typ + 2
    | Inr (Inl (s, G, typ)) \<Rightarrow> 3 * size typ
    | Inr (Inr (s, G, typ)) \<Rightarrow> 3 * size typ)")
  apply (auto dest: size_Elem)
  done

declare decoderOfPtr.simps [simp del] decoderOfOptional.simps [simp del]
  decoderOfSlice.simps [simp del] decoderOfMap.simps [simp del]

text \<open>\<^verbatim>\<open>decoderOfType\<close>, the compiler's entry.\<close>

definition decoderOfType :: "(Globals \<Rightarrow> rtype \<Rightarrow> (error + Decoder) outcome) \<Rightarrow> Globals \<Rightarrow> rtype \<Rightarrow> (error + Decoder) outcome" where
  "decoderOfType decoderOfStruct G typ =
     (case Kind typ of
        reflect_Ptr \<Rightarrow>
          (case Elem typ of
             None \<Rightarrow> Panic
           | Some e \<Rightarrow> addTo ''ptr'' (decoderOfPtr decoderOfStruct G e))
      | _ \<Rightarrow> Return (Inl (errorString ''expect ptr'')))"

section \<open>Registry and cache\<close>

text \<open>\<^verbatim>\<open>init\<close> and the registration functions.\<close>

definition init :: Globals where
  "init = \<lparr>typeDecoders = Map.empty, fieldDecoders = Map.empty, extensions = [],
            DECODERS = 0, maps = [Map.empty]\<rparr>"

definition RegisterTypeDecoder :: "string \<Rightarrow> DecoderFunc \<Rightarrow> Globals \<Rightarrow> Globals" where
  "RegisterTypeDecoder typ fun G = G\<lparr>typeDecoders := (typeDecoders G)(typ \<mapsto> funcDecoder fun)\<rparr>"

definition RegisterFieldDecoder :: "string \<Rightarrow> string \<Rightarrow> DecoderFunc \<Rightarrow> Globals \<Rightarrow> Globals" where
  "RegisterFieldDecoder typ field fun G =
     G\<lparr>fieldDecoders := (fieldDecoders G)(typ @ ''/'' @ field \<mapsto> funcDecoder fun)\<rparr>"

definition RegisterExtension :: "nat \<Rightarrow> Globals \<Rightarrow> Globals" where
  "RegisterExtension extension G = G\<lparr>extensions := extensions G @ [extension]\<rparr>"

definition CleanDecoders :: "Globals \<Rightarrow> Globals" where
  "CleanDecoders G = G\<lparr>typeDecoders := Map.empty, fieldDecoders := Map.empty\<rparr>"

text \<open>
  The atomic operations on \<^verbatim>\<open>DECODERS\<close>, the dereference of a map pointer (a panic
  when it points to no map), and the allocation of a map. The model is sequential:
  between the load and the swap nothing else runs.
\<close>

definition LoadPointer :: "Globals \<Rightarrow> nat" where
  "LoadPointer G = DECODERS G"

definition CompareAndSwapPointer :: "nat \<Rightarrow> nat \<Rightarrow> Globals \<Rightarrow> bool \<times> Globals" where
  "CompareAndSwapPointer old new G =
     (if DECODERS G = old then (True, G\<lparr>DECODERS := new\<rparr>) else (False, G))"

definition deref :: "Globals \<Rightarrow> nat \<Rightarrow> (rtype \<Rightarrow> Decoder option option) option" where
  "deref G ptr = (if ptr < length (maps G) then Some (maps G ! ptr) else None)"

definition new_map :: "(rtype \<Rightarrow> Decoder option option) \<Rightarrow> Globals \<Rightarrow> nat \<times> Globals" where
  "new_map m G = (length (maps G), G\<lparr>maps := maps G @ [m]\<rparr>)"

text \<open>
  \<^verbatim>\<open>addDecoderToCache\<close> with its retry loop. The range loop copies every entry of
  \<^verbatim>\<open>cache\<close> into the empty \<^verbatim>\<open>copy\<close>. The loop ends because, run sequentially, the
  swap succeeds at once: the recursive call is never reached.
\<close>

function addDecoderToCache :: "rtype \<Rightarrow> Decoder option \<Rightarrow> Globals \<Rightarrow> Globals outcome" where
  "addDecoderToCache cacheKey decoder G =
     (let ptr = LoadPointer G in
      case deref G ptr of
        None \<Rightarrow> Panic
      | Some cache \<Rightarrow>
          (let copy = (Map.empty ++ cache)(cacheKey \<mapsto> decoder);
               (addr, G1) = new_map copy G;
               (swapped, G2) = CompareAndSwapPointer ptr addr G1
           in if \<not> swapped then addDecoderToCache cacheKey decoder G2 else Return G2))"
  by pat_completeness auto
termination
  apply (relation "{}")
   apply simp
  apply (simp add: LoadPointer_def new_map_def CompareAndSwapPointer_def split: if_splits)
  done

declare addDecoderToCache.simps [simp del]

text \<open>\<^verbatim>\<open>getDecoderFromCache\<close>; a key that is absent gives nil.\<close>

definition getDecoderFromCache :: "rtype \<Rightarrow> Globals \<Rightarrow> Decoder option outcome" where
  "getDecoderFromCache cacheKey G =
     (let ptr = LoadPointer G in
      case deref G ptr of
        None \<Rightarrow> Panic
      | Some cache \<Rightarrow>
          Return (case cache cacheKey of None \<Rightarrow> None | Some decoder \<Rightarrow> decoder))"

section \<open>Memory and the decoders' \<^verbatim>\<open>decode\<close>\<close>

text \<open>
  Memory as pointer-sized words, one per address; address 0 is nil. \<open>allocated\<close> is
  the highest address given out so far.
\<close>

record Heap =
  cells :: "nat \<Rightarrow> nat"
  allocated :: nat

text \<open>
  What \<^verbatim>\<open>decode\<close> needs from outside \<^verbatim>\<open>feature_reflect.go\<close>: the token source, the
  size of a type, the call of a \<^verbatim>\<open>DecoderFunc\<close>, and the \<^verbatim>\<open>decode\<close> of the decoders
  declared elsewhere.
\<close>

record runtime =
  tokens :: tokenSource
  Sizeof :: "rtype \<Rightarrow> nat"
  callFunc :: "DecoderFunc \<Rightarrow> nat \<Rightarrow> Iterator \<times> Heap \<Rightarrow> Iterator \<times> Heap"
  otherDecode :: "Decoder \<Rightarrow> nat \<Rightarrow> Iterator \<times> Heap \<Rightarrow> Iterator \<times> Heap"

text \<open>
  \<^verbatim>\<open>reflect.New(typ)\<close>: storage for a zero value of the type, at addresses never given
  out before, and never at nil.
\<close>

definition reflect_New :: "runtime \<Rightarrow> rtype \<Rightarrow> Heap \<Rightarrow> nat \<times> Heap" where
  "reflect_New rt typ hp =
     (let a = Suc (allocated hp); n = max 1 (Sizeof rt typ)
      in (a, \<lparr>cells = (\<lambda>x. if a \<le> x \<and> x < a + n then 0 else cells hp x),
               allocated = allocated hp + n\<rparr>))"

text \<open>
  \<^verbatim>\<open>decode\<close> by decoder: \<^verbatim>\<open>optionalDecoder.decode\<close> and \<^verbatim>\<open>funcDecoder.decode\<close> as
  they are written, the others through \<open>otherDecode\<close>. Among these is
  \<^verbatim>\<open>mapDecoder.decode\<close>, which fills the runtime's map through \<^verbatim>\<open>reflect\<close>
  (\<^verbatim>\<open>SetMapIndex\<close>).
\<close>

fun decode :: "runtime \<Rightarrow> Decoder \<Rightarrow> nat \<Rightarrow> Iterator \<times> Heap \<Rightarrow> Iterator \<times> Heap" where
  "decode rt (optionalDecoder valueType valueDecoder) ptr (iter, hp) =
     (case ReadNil (tokens rt) iter of (isNil, iter1) \<Rightarrow>
        if isNil then (iter1, hp\<lparr>cells := (cells hp)(ptr := 0)\<rparr>)
        else if cells hp ptr = 0 then
          (case reflect_New rt valueType hp of (value, hp1) \<Rightarrow>
             (case decode rt valueDecoder value (iter1, hp1) of (iter2, hp2) \<Rightarrow>
                (iter2, hp2\<lparr>cells := (cells hp2)(ptr := value)\<rparr>)))
        else decode rt valueDecoder (cells hp ptr) (iter1, hp))"
| "decode rt (funcDecoder f) ptr w = callFunc rt f ptr w"
| "decode rt decoder ptr w = otherDecode rt decoder ptr w"

section \<open>The entry point\<close>

text \<open>
  The argument \<^verbatim>\<open>obj interface{}\<close> of \<^verbatim>\<open>Read\<close>: its dynamic type, which
  \<^verbatim>\<open>reflect.TypeOf\<close> returns (nil for a nil interface), and its data word.
\<close>

record emptyInterface =
  itype :: "rtype option"
  iword :: nat

text \<open>
  \<^verbatim>\<open>Iterator.Read\<close>. \<^verbatim>\<open>typ.Elem()\<close> comes before any check of the kind, so it panics
  on a nil \<^verbatim>\<open>typ\<close> and on a kind without an element type.
\<close>

definition Read ::
  "runtime \<Rightarrow> (Globals \<Rightarrow> rtype \<Rightarrow> (error + Decoder) outcome) \<Rightarrow> emptyInterface \<Rightarrow>
     Iterator \<Rightarrow> Heap \<Rightarrow> Globals \<Rightarrow> (Iterator \<times> Heap \<times> Globals) outcome" where
  "Read rt decoderOfStruct obj iter hp G =
     (case itype obj of
        None \<Rightarrow> Panic
      | Some typ \<Rightarrow>
          (case Elem typ of
             None \<Rightarrow> Panic
           | Some cacheKey \<Rightarrow>
               (case getDecoderFromCache cacheKey G of
                  Return None \<Rightarrow>
                    (case decoderOfType decoderOfStruct G typ of
                       Return (Inl err) \<Rightarrow> Return (iter\<lparr>Error := Some err\<rparr>, hp, G)
                     | Return (Inr decoder) \<Rightarrow>
                         (case addDecoderToCache cacheKey (Some decoder) G of
                            Return G1 \<Rightarrow>
                              (case decode rt decoder (iword obj) (iter, hp) of
                                 (iter1, hp1) \<Rightarrow> Return (iter1, hp1, G1))
                          | Panic \<Rightarrow> Panic
                          | OutOfFuel \<Rightarrow> OutOfFuel)
                     | Panic \<Rightarrow> Panic
                     | OutOfFuel \<Rightarrow> OutOfFuel)
                | Return (Some cachedDecoder) \<Rightarrow>
                    (case decode rt cachedDecoder (iword obj) (iter, hp) of
                       (iter1, hp1) \<Rightarrow> Return (iter1, hp1, G))
                | Panic \<Rightarrow> Panic
                | OutOfFuel \<Rightarrow> OutOfFuel)))"

section \<open>What the scanner reads\<close>

text \<open>
  The characters \<^verbatim>\<open>readNumber\<close> accumulates, the part of the buffer that is still
  unread, and the whole input ahead of the iterator: the unread window followed by the
  chunks the reader has still to deliver.
\<close>

definition numeric :: "char \<Rightarrow> bool" where
  "numeric c = (c = CHR ''-'' \<or> plusOrDigit c \<or> floatMark c)"

definition window :: "Iterator \<Rightarrow> string" where
  "window iter = drop (head iter) (take (tail iter) (buf iter))"

definition input :: "Iterator \<Rightarrow> string" where
  "input iter = window iter @ concat (reader iter)"

text \<open>The locals after a run \<open>lit\<close> of numeric characters has been accumulated.\<close>

definition absorb :: "numberScan \<Rightarrow> string \<Rightarrow> numberScan" where
  "absorb st lit =
     \<lparr>str = str st @ lit,
      foundFloat = (foundFloat st \<or> list_ex floatMark lit),
      foundNegative = (foundNegative st \<or> CHR ''-'' \<in> set lit)\<rparr>"

section \<open>Runs of elements and fields that parse without an error\<close>

text \<open>
  \<open>elementsParsed n ts iter vs iter'\<close>: starting at the head of the array loop with the
  iterator \<open>iter\<close>, the loop goes round once for each value of \<open>vs\<close>, in this order:
  \<^verbatim>\<open>ReadArray\<close> returns true, \<^verbatim>\<open>ReadAny\<close> (with fuel \<open>n\<close>) returns an \<^verbatim>\<open>Any\<close>
  holding that value and leaves the error slot empty; and \<open>iter'\<close> is the iterator at
  the head of the loop after these rounds.
\<close>

fun elementsParsed :: "nat \<Rightarrow> tokenSource \<Rightarrow> Iterator \<Rightarrow> value list \<Rightarrow> Iterator \<Rightarrow> bool" where
  "elementsParsed n ts iter [] iter' = (iter' = iter)"
| "elementsParsed n ts iter (v # vs) iter' =
     (case ReadArray ts iter of (more_elements, iter1) \<Rightarrow>
        more_elements \<and>
        (case ReadAny n ts iter1 of
           Return (Some e, iter2) \<Rightarrow>
             Error iter2 = None \<and> val e = v \<and> elementsParsed n ts iter2 vs iter'
         | _ \<Rightarrow> False))"

text \<open>
  \<open>fieldsParsed n ts field iter kvs field' iter'\<close>: the same for the object loop, which
  is entered with the field name \<open>field\<close>; \<open>kvs\<close> are the names and values of its
  rounds, and \<open>field'\<close> is the name the last \<^verbatim>\<open>ReadObject\<close> returned.
\<close>

fun fieldsParsed ::
  "nat \<Rightarrow> tokenSource \<Rightarrow> string \<Rightarrow> Iterator \<Rightarrow> (string \<times> value) list \<Rightarrow> string \<Rightarrow> Iterator \<Rightarrow> bool" where
  "fieldsParsed n ts field iter [] field' iter' = (field' = field \<and> iter' = iter)"
| "fieldsParsed n ts field iter (kv # kvs) field' iter' =
     (field \<noteq> [] \<and> fst kv = field \<and>
      (case ReadAny n ts iter of
         Return (Some e, iter2) \<Rightarrow>
           Error iter2 = None \<and> val e = snd kv \<and>
           (case ReadObject ts iter2 of (field2, iter3) \<Rightarrow>
              fieldsParsed n ts field2 iter3 kvs field' iter')
       | _ \<Rightarrow> False))"

text \<open>The assignment \<^verbatim>\<open>val[field] = element.val\<close>.\<close>

definition assign :: "(string \<Rightarrow> value option) \<Rightarrow> string \<times> value \<Rightarrow> (string \<Rightarrow> value option)" where
  "assign m kv = m(fst kv \<mapsto> snd kv)"

section \<open>Stand-ins for \<^verbatim>\<open>strconv\<close>, to run the scanner on examples\<close>

text \<open>
  Decimal parsers for the examples: \<open>sampleParseUint\<close> reads digits only,
  \<open>sampleParseInt\<close> an optional sign and digits, both with the range check of 64 bits;
  \<open>sampleParseFloat\<close> knows the literal \<^verbatim>\<open>1.5\<close> only, whose \<^verbatim>\<open>float64\<close> is exact.
\<close>

fun digitsValue :: "string \<Rightarrow> nat \<Rightarrow> nat option" where
  "digitsValue [] acc = Some acc"
| "digitsValue (c # cs) acc =
     (if 48 \<le> (of_char c :: nat) \<and> (of_char c :: nat) \<le> 57
      then digitsValue cs (10 * acc + (of_char c - 48)) else None)"

definition sampleParseUint :: "string \<Rightarrow> error + 64 word" where
  "sampleParseUint s =
     (if s = [] then Inl (errorString ''strconv.ParseUint: invalid syntax'')
      else case digitsValue s 0 of
             None \<Rightarrow> Inl (errorString ''strconv.ParseUint: invalid syntax'')
           | Some n \<Rightarrow>
               if n < 2 ^ 64 then Inr (of_nat n)
               else Inl (errorString ''strconv.ParseUint: value out of range''))"

definition sampleParseInt :: "string \<Rightarrow> error + 64 word" where
  "sampleParseInt s =
     (let neg = (s \<noteq> [] \<and> hd s = CHR ''-'');
          body = (if s \<noteq> [] \<and> (hd s = CHR ''-'' \<or> hd s = CHR ''+'') then tl s else s)
      in if body = [] then Inl (errorString ''strconv.ParseInt: invalid syntax'')
         else case digitsValue body 0 of
                None \<Rightarrow> Inl (errorString ''strconv.ParseInt: invalid syntax'')
              | Some n \<Rightarrow>
                  if neg then
                    (if n \<le> 2 ^ 63 then Inr (- of_nat n)
                     else Inl (errorString ''strconv.ParseInt: value out of range''))
                  else
                    (if n < 2 ^ 63 then Inr (of_nat n)
                     else Inl (errorString ''strconv.ParseInt: value out of range'')))"

definition sampleParseFloat :: "string \<Rightarrow> error + real" where
  "sampleParseFloat s =
     (if s = ''1.5'' then Inr (3 / 2)
      else Inl (errorString ''strconv.ParseFloat: invalid syntax''))"

definition sampleStrconv :: strconv where
  "sampleStrconv =
     \<lparr>ParseFloat = sampleParseFloat, ParseInt = sampleParseInt, ParseUint = sampleParseUint\<rparr>"

section \<open>A small token source, to run \<^verbatim>\<open>ReadAny\<close> on examples\<close>

text \<open>
  A token source for documents without white space that fit in one buffer: it looks at
  the character under \<^verbatim>\<open>head\<close> only. It stands in for the tokenizer where the
  model is run on an example.
\<close>

definition peekChar :: "Iterator \<Rightarrow> nat \<Rightarrow> char option" where
  "peekChar iter k =
     (if head iter + k < tail iter \<and> head iter + k < length (buf iter)
      then Some (buf iter ! (head iter + k)) else None)"

definition advance :: "Iterator \<Rightarrow> nat \<Rightarrow> Iterator" where
  "advance iter k = iter\<lparr>head := head iter + k\<rparr>"

definition sampleReportError :: "string \<Rightarrow> string \<Rightarrow> Iterator \<Rightarrow> Iterator" where
  "sampleReportError operation msg iter =
     (if Error iter \<noteq> None then iter
      else iter\<lparr>Error := Some (errorString (operation @ '': '' @ msg))\<rparr>)"

definition sampleWhatIsNext :: "Iterator \<Rightarrow> ValueType \<times> Iterator" where
  "sampleWhatIsNext iter =
     (case peekChar iter 0 of
        None \<Rightarrow> (OtherValueType 0, iter)
      | Some c \<Rightarrow>
          (if c = CHR 0x22 then String
           else if c = CHR ''['' then Array
           else if c = CHR ''{'' then Object
           else if c = CHR ''n'' then Null
           else if c = CHR ''t'' \<or> c = CHR ''f'' then Bool
           else if c = CHR ''-'' \<or> plusOrDigit c then Number
           else OtherValueType 0, iter))"

definition sampleReadString :: "Iterator \<Rightarrow> string \<times> Iterator" where
  "sampleReadString iter =
     (let s = takeWhile (\<lambda>c. c \<noteq> CHR 0x22) (drop (Suc (head iter)) (take (tail iter) (buf iter)))
      in (s, advance iter (length s + 2)))"

definition sampleReadBool :: "Iterator \<Rightarrow> bool \<times> Iterator" where
  "sampleReadBool iter =
     (if peekChar iter 0 = Some (CHR ''t'') then (True, advance iter 4)
      else (False, advance iter 5))"

definition sampleReadNil :: "Iterator \<Rightarrow> bool \<times> Iterator" where
  "sampleReadNil iter =
     (if peekChar iter 0 = Some (CHR ''n'') then (True, advance iter 4) else (False, iter))"

definition sampleReadArray :: "Iterator \<Rightarrow> bool \<times> Iterator" where
  "sampleReadArray iter =
     (if peekChar iter 0 = Some (CHR ''['') then
        (if peekChar iter 1 = Some (CHR '']'') then (False, advance iter 2)
         else (True, advance iter 1))
      else if peekChar iter 0 = Some (CHR '','') then (True, advance iter 1)
      else if peekChar iter 0 = Some (CHR '']'') then (False, advance iter 1)
      else (False, sampleReportError ''ReadArray'' ''expect [ or , or ]'' iter))"

definition sampleReadObject :: "Iterator \<Rightarrow> string \<times> Iterator" where
  "sampleReadObject iter =
     (if peekChar iter 0 = Some (CHR ''}'') then ([], advance iter 1)
      else if peekChar iter 0 = Some (CHR ''{'') \<or> peekChar iter 0 = Some (CHR '','') then
        (if peekChar iter 1 = Some (CHR ''}'') then ([], advance iter 2)
         else if peekChar iter 1 = Some (CHR 0x22) then
           (let name = takeWhile (\<lambda>c. c \<noteq> CHR 0x22)
                         (drop (head iter + 2) (take (tail iter) (buf iter)))
            in (name, advance iter (length name + 4)))
         else ([], sampleReportError ''ReadObject'' ''expect field name'' iter))
      else ([], sampleReportError ''ReadObject'' ''expect { or , or }'' iter))"

definition sampleFormatValueType :: "ValueType \<Rightarrow> string" where
  "sampleFormatValueType valueType =
     (case valueType of
        String \<Rightarrow> ''1'' | Number \<Rightarrow> ''2'' | Null \<Rightarrow> ''3'' | Bool \<Rightarrow> ''4''
      | Array \<Rightarrow> ''5'' | Object \<Rightarrow> ''6'' | OtherValueType k \<Rightarrow> ''0'')"

definition sampleTokens :: tokenSource where
  "sampleTokens =
     \<lparr>WhatIsNext = sampleWhatIsNext, ReadString = sampleReadString, ReadBool = sampleReadBool,
      ReadNil = sampleReadNil, ReadArray = sampleReadArray, ReadObject = sampleReadObject,
      reportError = sampleReportError, formatValueType = sampleFormatValueType,
      parsers = sampleStrconv\<rparr>"

text \<open>
  Modelled from the spec: \<^verbatim>\<open>ParseString\<close>, the convenience function the tests call,
  which another file of the package declares: an iterator over a whole document held in
  the buffer, with no reader behind it.
\<close>

definition ParseString :: "string \<Rightarrow> Iterator" where
  "ParseString s = \<lparr>buf = s, head = 0, tail = length s, Error = None, reader = [], readerEnd = EOF\<rparr>"

text \<open>The document \<^verbatim>\<open>{"a":element}\<close>.\<close>

definition sampleObject :: "string \<Rightarrow> string" where
  "sampleObject element = ''{'' @ [CHR 0x22] @ ''a'' @ [CHR 0x22] @ '':'' @ element @ ''}''"

section \<open>Some types, a compiler without structs and a small runtime, for examples\<close>

definition int_t :: rtype where "int_t = rtype reflect_Int ''int'' None None"
definition string_t :: rtype where "string_t = rtype reflect_String ''string'' None None"
definition Any_t :: rtype where "Any_t = rtype reflect_Struct ''jsoniter.Any'' None None"
definition Time_t :: rtype where "Time_t = rtype reflect_Struct ''time.Time'' None None"
definition chan_int_t :: rtype where "chan_int_t = rtype reflect_Chan ''chan int'' (Some int_t) None"
definition interface_t :: rtype where "interface_t = rtype reflect_Interface ''interface {}'' None None"
definition map_int_string_t :: rtype where
  "map_int_string_t = rtype reflect_Map ''map[int]string'' (Some string_t) (Some int_t)"
definition map_interface_string_t :: rtype where
  "map_interface_string_t =
     rtype reflect_Map ''map[interface {}]string'' (Some string_t) (Some interface_t)"
definition map_string_chan_t :: rtype where
  "map_string_chan_t = rtype reflect_Map ''map[string]chan int'' (Some chan_int_t) (Some string_t)"
definition PtrTo :: "rtype \<Rightarrow> rtype" where
  "PtrTo t = rtype reflect_Ptr (CHR ''*'' # TypeString t) (Some t) None"

text \<open>A stand-in for \<^verbatim>\<open>decoderOfStruct\<close> that compiles no struct.\<close>

definition noStructs :: "Globals \<Rightarrow> rtype \<Rightarrow> (error + Decoder) outcome" where
  "noStructs G t = Return (Inl (errorString (''no decoder for struct '' @ TypeString t)))"

lemmas type_defs = int_t_def string_t_def Any_t_def Time_t_def chan_int_t_def interface_t_def
  map_int_string_t_def map_interface_string_t_def map_string_chan_t_def PtrTo_def

text \<open>
  A runtime in which \<^verbatim>\<open>uint64Decoder\<close> stores the number it reads at the address, and
  every other decoder declared elsewhere does nothing.
\<close>

definition sampleOtherDecode :: "Decoder \<Rightarrow> nat \<Rightarrow> Iterator \<times> Heap \<Rightarrow> Iterator \<times> Heap" where
  "sampleOtherDecode decoder ptr w =
     (case w of (iter, hp) \<Rightarrow>
        if decoder = uint64Decoder then
          (case readNumber sampleStrconv iter of
             Return (Some (MakeAny (uint64_v v)), iter1) \<Rightarrow>
               (iter1, hp\<lparr>cells := (cells hp)(ptr := unat v)\<rparr>)
           | Return (r, iter1) \<Rightarrow> (iter1, hp)
           | _ \<Rightarrow> (iter, hp))
        else (iter, hp))"

definition sampleRuntime :: runtime where
  "sampleRuntime =
     \<lparr>tokens = sampleTokens, Sizeof = (\<lambda>t. 1), callFunc = (\<lambda>f ptr w. w),
      otherDecode = sampleOtherDecode\<rparr>"

definition emptyHeap :: Heap where
  "emptyHeap = \<lparr>cells = (\<lambda>a. 0), allocated = 8\<rparr>"

definition uint64_t :: rtype where "uint64_t = rtype reflect_Uint64 ''uint64'' None None"

section \<open>The scan yields the longest numeric prefix of the input\<close>

lemma scanChar_None: "scanChar c st = None \<longleftrightarrow> \<not> numeric c"
  by (simp add: scanChar_def numeric_def)

lemma floatMark_minus: "\<not> floatMark (CHR ''-'')"
  by (simp add: floatMark_def)

lemma floatMark_plusOrDigit: "plusOrDigit c \<Longrightarrow> \<not> floatMark c"
  by (auto simp: floatMark_def plusOrDigit_def)

lemma plusOrDigit_minus: "\<not> plusOrDigit (CHR ''-'')"
  by (simp add: plusOrDigit_def)

lemma scanChar_Some: "numeric c \<Longrightarrow> scanChar c st = Some (absorb st [c])"
  by (auto simp: scanChar_def numeric_def absorb_def floatMark_minus floatMark_plusOrDigit plusOrDigit_minus)

lemma absorb_absorb: "absorb (absorb st xs) ys = absorb st (xs @ ys)"
  by (auto simp: absorb_def)

lemma absorb_Nil: "absorb st [] = st"
  by (simp add: absorb_def)

lemma scanBuf_spec:
  assumes "tail iter \<le> length (buf iter)"
  shows "scanBuf iter i st =
     (let rest = drop i (take (tail iter) (buf iter)); lit = takeWhile numeric rest in
      if lit = rest then Return (True, iter, absorb st lit)
      else Return (False, iter\<lparr>head := i + length lit\<rparr>, absorb st lit))"
  using assms
proof (induction iter i st rule: scanBuf.induct)
  case (1 iter i st)
  show ?case
  proof (cases "i < tail iter")
    case False
    then show ?thesis
      by (subst scanBuf.simps) (simp add: absorb_Nil)
  next
    case True
    with "1.prems" have len: "i < length (buf iter)" by simp
    from True len have rest: "drop i (take (tail iter) (buf iter)) =
        buf iter ! i # drop (Suc i) (take (tail iter) (buf iter))"
      by (simp add: Cons_nth_drop_Suc [symmetric])
    show ?thesis
    proof (cases "numeric (buf iter ! i)")
      case False
      then have "scanChar (buf iter ! i) st = None" by (simp add: scanChar_None)
      with True len False rest show ?thesis
        by (subst scanBuf.simps) (simp add: absorb_Nil Let_def)
    next
      case num: True
      then have sc: "scanChar (buf iter ! i) st = Some (absorb st [buf iter ! i])"
        by (rule scanChar_Some)
      have IH: "scanBuf iter (Suc i) (absorb st [buf iter ! i]) =
        (let rest = drop (Suc i) (take (tail iter) (buf iter)); lit = takeWhile numeric rest in
         if lit = rest then Return (True, iter, absorb (absorb st [buf iter ! i]) lit)
         else Return (False, iter\<lparr>head := Suc i + length lit\<rparr>, absorb (absorb st [buf iter ! i]) lit))"
        using "1.IH" [OF True _ sc] len "1.prems" by simp
      show ?thesis
        by (subst scanBuf.simps) (use len in \<open>simp add: True sc IH rest num Let_def absorb_absorb\<close>)
    qed
  qed
qed

lemma window_after_stop:
  "window (iter\<lparr>head := head iter + n\<rparr>) = drop n (window iter)"
  by (simp add: window_def add.commute)

lemma scanLoop_spec:
  assumes "tail iter \<le> length (buf iter)"
  shows "\<exists>iter'. scanLoop iter st = Return (iter', absorb st (takeWhile numeric (input iter)))
     \<and> readerEnd iter' = readerEnd iter
     \<and> tail iter' \<le> length (buf iter')
     \<and> (if takeWhile numeric (input iter) = input iter
         then Error iter' = Some (readerEnd iter) \<and> reader iter' = []
         else Error iter' = Error iter \<and> input iter' = dropWhile numeric (input iter))"
  using assms
  supply takeWhile_eq_all_conv [simp del]
proof (induction "reader iter" arbitrary: iter st)
  case Nil
  let ?w = "window iter"
  show ?case
  proof (cases "takeWhile numeric ?w = ?w")
    case True
    with Nil show ?thesis
      by (subst scanLoop.simps)
         (simp add: scanBuf_spec Let_def window_def [symmetric] input_def loadMore_def)
  next
    case False
    with Nil show ?thesis
      by (subst scanLoop.simps)
         (simp add: scanBuf_spec Let_def window_def [symmetric] input_def window_after_stop
            dropWhile_eq_drop)
  qed
next
  case (Cons chunk rest)
  let ?w = "window iter"
  let ?iter2 = "iter\<lparr>buf := chunk, head := 0, tail := length chunk, reader := rest\<rparr>"
  from Cons.hyps(2) have rd: "reader iter = chunk # rest" by simp
  show ?case
  proof (cases "takeWhile numeric ?w = ?w")
    case False
    then have ex: "\<exists>x\<in>set ?w. \<not> numeric x"
      by (simp add: takeWhile_eq_all_conv)
    then have tw: "takeWhile numeric (input iter) = takeWhile numeric ?w"
      and dw: "dropWhile numeric (input iter) = dropWhile numeric ?w @ concat (reader iter)"
      by (auto simp: input_def)
    have ne: "takeWhile numeric ?w \<noteq> input iter"
      using False by (metis input_def tw takeWhile_eq_all_conv set_append UnCI ex)
    from False Cons.prems show ?thesis
      apply (subst scanLoop.simps)
      apply (simp add: scanBuf_spec Let_def window_def [symmetric] tw dw ne)
      apply (simp add: input_def window_after_stop dropWhile_eq_drop)
      done
  next
    case True
    then have all: "\<forall>x\<in>set ?w. numeric x"
      by (simp add: takeWhile_eq_all_conv)
    have in2: "input ?iter2 = chunk @ concat rest"
      by (simp add: input_def window_def)
    have inp: "input iter = ?w @ input ?iter2"
      by (simp add: input_def [of iter] rd in2)
    have tw: "takeWhile numeric (input iter) = ?w @ takeWhile numeric (input ?iter2)"
      using all by (simp add: inp)
    have dw: "dropWhile numeric (input iter) = dropWhile numeric (input ?iter2)"
      using all by (simp add: inp)
    obtain iter' where IH: "scanLoop ?iter2 (absorb st ?w) =
          Return (iter', absorb (absorb st ?w) (takeWhile numeric (input ?iter2)))"
        "readerEnd iter' = readerEnd ?iter2" "tail iter' \<le> length (buf iter')"
        "(if takeWhile numeric (input ?iter2) = input ?iter2
         then Error iter' = Some (readerEnd ?iter2) \<and> reader iter' = []
         else Error iter' = Error ?iter2 \<and> input iter' = dropWhile numeric (input ?iter2))"
      using Cons.hyps(1) [of ?iter2 "absorb st ?w"] by auto
    have ex: "(takeWhile numeric (input iter) = input iter) =
        (takeWhile numeric (input ?iter2) = input ?iter2)"
      by (subst tw, subst inp) simp
    have "scanLoop iter st = scanLoop ?iter2 (absorb st ?w)"
      using True Cons.prems
      by (subst scanLoop.simps)
         (simp add: scanBuf_spec Let_def window_def [symmetric] loadMore_def rd)
    with IH(1) have 1: "scanLoop iter st =
        Return (iter', absorb st (takeWhile numeric (input iter)))"
      by (simp add: tw absorb_absorb)
    from IH(2) have 2: "readerEnd iter' = readerEnd iter" by simp
    have 3: "if takeWhile numeric (input iter) = input iter
         then Error iter' = Some (readerEnd iter) \<and> reader iter' = []
         else Error iter' = Error iter \<and> input iter' = dropWhile numeric (input iter)"
      unfolding ex dw using IH(4) by simp
    from 1 2 3 IH(3) show ?thesis by blast
  qed
qed

lemma readNumber_spec:
  assumes "tail iter \<le> length (buf iter)"
  shows "\<exists>iter1.
      scanLoop iter \<lparr>str = [], foundFloat = False, foundNegative = False\<rparr> =
        Return (iter1, \<lparr>str = takeWhile numeric (input iter),
                         foundFloat = list_ex floatMark (takeWhile numeric (input iter)),
                         foundNegative = (CHR ''-'' \<in> set (takeWhile numeric (input iter)))\<rparr>)
      \<and> Error iter1 =
          (if takeWhile numeric (input iter) = input iter then Some (readerEnd iter)
           else Error iter)
      \<and> readNumber sc iter =
          (if Error iter1 \<noteq> None \<and> Error iter1 \<noteq> Some EOF then Return (None, iter1)
           else if list_ex floatMark (takeWhile numeric (input iter)) then
             (case ParseFloat sc (takeWhile numeric (input iter)) of
                Inl err \<Rightarrow> Return (None, iter1\<lparr>Error := Some err\<rparr>)
              | Inr v \<Rightarrow> Return (Some (MakeAny (float64_v v)), iter1))
           else if CHR ''-'' \<in> set (takeWhile numeric (input iter)) then
             (case ParseInt sc (takeWhile numeric (input iter)) of
                Inl err \<Rightarrow> Return (None, iter1\<lparr>Error := Some err\<rparr>)
              | Inr v \<Rightarrow> Return (Some (MakeAny (int64_v v)), iter1))
           else
             (case ParseUint sc (takeWhile numeric (input iter)) of
                Inl err \<Rightarrow> Return (None, iter1\<lparr>Error := Some err\<rparr>)
              | Inr v \<Rightarrow> Return (Some (MakeAny (uint64_v v)), iter1)))"
proof -
  let ?init = "\<lparr>str = [], foundFloat = False, foundNegative = False\<rparr>"
  let ?lit = "takeWhile numeric (input iter)"
  obtain iter1 where sl: "scanLoop iter ?init = Return (iter1, absorb ?init ?lit)"
    and er: "if ?lit = input iter
         then Error iter1 = Some (readerEnd iter) \<and> reader iter1 = []
         else Error iter1 = Error iter \<and> input iter1 = dropWhile numeric (input iter)"
    using scanLoop_spec [OF assms, of ?init] by blast
  have ab: "absorb ?init ?lit = \<lparr>str = ?lit, foundFloat = list_ex floatMark ?lit,
      foundNegative = (CHR ''-'' \<in> set ?lit)\<rparr>"
    by (simp add: absorb_def)
  have 1: "scanLoop iter ?init = Return (iter1, \<lparr>str = ?lit, foundFloat = list_ex floatMark ?lit,
      foundNegative = (CHR ''-'' \<in> set ?lit)\<rparr>)"
    using sl ab by simp
  have 2: "Error iter1 = (if ?lit = input iter then Some (readerEnd iter) else Error iter)"
    using er by (simp split: if_splits)
  have 3: "readNumber sc iter =
          (if Error iter1 \<noteq> None \<and> Error iter1 \<noteq> Some EOF then Return (None, iter1)
           else if list_ex floatMark ?lit then
             (case ParseFloat sc ?lit of
                Inl err \<Rightarrow> Return (None, iter1\<lparr>Error := Some err\<rparr>)
              | Inr v \<Rightarrow> Return (Some (MakeAny (float64_v v)), iter1))
           else if CHR ''-'' \<in> set ?lit then
             (case ParseInt sc ?lit of
                Inl err \<Rightarrow> Return (None, iter1\<lparr>Error := Some err\<rparr>)
              | Inr v \<Rightarrow> Return (Some (MakeAny (int64_v v)), iter1))
           else
             (case ParseUint sc ?lit of
                Inl err \<Rightarrow> Return (None, iter1\<lparr>Error := Some err\<rparr>)
              | Inr v \<Rightarrow> Return (Some (MakeAny (uint64_v v)), iter1)))"
    unfolding readNumber_def 1 by (simp add: Let_def)
  from 1 2 3 show ?thesis by blast
qed

section \<open>Fuel, and the loops of \<^verbatim>\<open>ReadAny\<close>\<close>

text \<open>A call that returns or panics within some fuel does the same with more.\<close>

lemma fuel_mono:
  shows "ReadAny n ts iter \<noteq> OutOfFuel \<Longrightarrow> ReadAny (n + k) ts iter = ReadAny n ts iter"
    and "readArrayLoop n ts vals iter \<noteq> OutOfFuel \<Longrightarrow>
           readArrayLoop (n + k) ts vals iter = readArrayLoop n ts vals iter"
    and "readObjectLoop n ts fvals field iter \<noteq> OutOfFuel \<Longrightarrow>
           readObjectLoop (n + k) ts fvals field iter = readObjectLoop n ts fvals field iter"
proof (induction n ts iter and n ts vals iter and n ts fvals field iter
    rule: ReadAny_readArrayLoop_readObjectLoop.induct)
  case (1 ts iter)
  then show ?case by simp
next
  case (2 n ts iter)
  then show ?case
    by (auto split: prod.splits ValueType.splits)
next
  case (3 ts vals iter)
  then show ?case by simp
next
  case (4 n ts vals iter)
  then show ?case
    by (auto split: prod.splits outcome.splits option.splits if_splits)
next
  case (5 ts vals field iter)
  then show ?case by simp
next
  case (6 n ts vals field iter)
  show ?case
  proof (cases "field = []")
    case True
    then show ?thesis by simp
  next
    case ne: False
    show ?thesis
    proof (cases "ReadAny n ts iter")
      case OutOfFuel
      with ne "6.prems" show ?thesis by simp
    next
      case Panic
      with ne "6.IH"(1) have "ReadAny (n + k) ts iter = Panic" by simp
      with ne Panic show ?thesis by simp
    next
      case (Return x)
      obtain element iter2 where x: "x = (element, iter2)" by (cases x)
      from ne Return "6.IH"(1) have up: "ReadAny (n + k) ts iter = Return (element, iter2)"
        by (simp add: x)
      show ?thesis
      proof (cases "Error iter2 \<noteq> None")
        case True
        with ne Return x up show ?thesis by simp
      next
        case noerr: False
        show ?thesis
        proof (cases element)
          case None
          with ne Return x up noerr show ?thesis by simp
        next
          case (Some e)
          obtain field' iter3 where ro: "ReadObject ts iter2 = (field', iter3)"
            by (cases "ReadObject ts iter2")
          from "6.prems" ne Return x noerr Some ro
          have nf: "readObjectLoop n ts (vals(field \<mapsto> val e)) field' iter3 \<noteq> OutOfFuel"
            by simp
          from "6.IH"(2) [OF ne Return x [symmetric] noerr Some ro [symmetric] nf]
          have "readObjectLoop (n + k) ts (vals(field \<mapsto> val e)) field' iter3 =
              readObjectLoop n ts (vals(field \<mapsto> val e)) field' iter3"
            by (simp add: fun_upd_def)
          with ne Return x up noerr Some ro show ?thesis by simp
        qed
      qed
    qed
  qed
qed

lemma ReadAny_more_fuel:
  "ReadAny n ts iter = Return r \<Longrightarrow> n \<le> m \<Longrightarrow> ReadAny m ts iter = Return r"
  using fuel_mono(1) [of n ts iter "m - n"] by simp

lemma readArrayLoop_elements:
  "elementsParsed n ts iter vs iter' \<Longrightarrow> n \<le> m \<Longrightarrow>
     readArrayLoop (m + length vs) ts acc iter = readArrayLoop m ts (acc @ vs) iter'"
proof (induction vs arbitrary: iter acc)
  case Nil
  then show ?case by simp
next
  case (Cons v vs)
  from Cons.prems(1) obtain iter1 e iter2 where
    ra: "ReadArray ts iter = (True, iter1)"
    and el: "ReadAny n ts iter1 = Return (Some e, iter2)"
    and ok: "Error iter2 = None" and v: "val e = v"
    and rest: "elementsParsed n ts iter2 vs iter'"
    by (auto split: prod.splits outcome.splits option.splits)
  from el Cons.prems(2) have el': "ReadAny (m + length vs) ts iter1 = Return (Some e, iter2)"
    by (intro ReadAny_more_fuel [OF el]) simp
  have "readArrayLoop (m + length (v # vs)) ts acc iter =
      readArrayLoop (m + length vs) ts (acc @ [v]) iter2"
    using ra el' ok v by simp
  also have "\<dots> = readArrayLoop m ts ((acc @ [v]) @ vs) iter'"
    by (rule Cons.IH [OF rest Cons.prems(2)])
  finally show ?case by simp
qed

lemma readObjectLoop_fields:
  "fieldsParsed n ts field iter kvs field' iter' \<Longrightarrow> n \<le> m \<Longrightarrow>
     readObjectLoop (m + length kvs) ts acc field iter =
     readObjectLoop m ts (foldl assign acc kvs) field' iter'"
proof (induction kvs arbitrary: field iter acc)
  case Nil
  then show ?case by simp
next
  case (Cons kv kvs)
  from Cons.prems(1) have ne: "field \<noteq> []" and k: "fst kv = field"
    by simp_all
  from Cons.prems(1) obtain r where r: "ReadAny n ts iter = Return r"
    by (cases "ReadAny n ts iter") simp_all
  obtain eo iter2 where r2: "r = (eo, iter2)"
    by (cases r)
  from Cons.prems(1) r r2 obtain e where e: "eo = Some e"
    by (cases eo) simp_all
  obtain field2 iter3 where ro: "ReadObject ts iter2 = (field2, iter3)"
    by (cases "ReadObject ts iter2")
  from r r2 e have el: "ReadAny n ts iter = Return (Some e, iter2)"
    by simp
  from Cons.prems(1) el ro have ok: "Error iter2 = None" and v: "val e = snd kv"
    and rest: "fieldsParsed n ts field2 iter3 kvs field' iter'"
    by simp_all
  from el Cons.prems(2) have el': "ReadAny (m + length kvs) ts iter = Return (Some e, iter2)"
    by (intro ReadAny_more_fuel [OF el]) simp
  have "readObjectLoop (m + length (kv # kvs)) ts acc field iter =
      readObjectLoop (m + length kvs) ts (assign acc kv) field2 iter3"
    using ne k el' ok v ro by (simp add: assign_def)
  also have "\<dots> = readObjectLoop m ts (foldl assign (assign acc kv) kvs) field' iter'"
    by (rule Cons.IH [OF rest Cons.prems(2)])
  finally show ?case by simp
qed

lemma ReadAny_array_complete:
  assumes "WhatIsNext ts iter0 = (Array, iter)"
    and "elementsParsed n ts iter vs iter'"
    and "ReadArray ts iter' = (False, iter'')"
  shows "ReadAny (Suc (Suc n) + length vs + k) ts iter0 = Return (Some (MakeAny (slice_v vs)), iter'')"
proof -
  have "Suc (Suc n) + length vs + k = Suc (Suc (n + k) + length vs)"
    by simp
  then have "ReadAny (Suc (Suc n) + length vs + k) ts iter0 =
      readArrayLoop (Suc (n + k) + length vs) ts [] iter"
    by (simp only: ReadAny.simps assms(1) prod.case ValueType.case)
  also have "\<dots> = readArrayLoop (Suc (n + k)) ts ([] @ vs) iter'"
    by (rule readArrayLoop_elements [OF assms(2)]) simp
  also have "\<dots> = Return (Some (MakeAny (slice_v vs)), iter'')"
    using assms(3) by simp
  finally show ?thesis .
qed

lemma ReadAny_array_error:
  assumes "WhatIsNext ts iter0 = (Array, iter)"
    and "elementsParsed n ts iter vs iter'"
    and "ReadArray ts iter' = (True, iter1)"
    and "ReadAny n ts iter1 = Return (element, iter2)"
    and "Error iter2 \<noteq> None"
  shows "ReadAny (Suc (Suc n) + length vs + k) ts iter0 = Return (None, iter2)"
proof -
  have el: "ReadAny (n + k) ts iter1 = Return (element, iter2)"
    by (rule ReadAny_more_fuel [OF assms(4)]) simp
  have "Suc (Suc n) + length vs + k = Suc (Suc (n + k) + length vs)"
    by simp
  then have "ReadAny (Suc (Suc n) + length vs + k) ts iter0 =
      readArrayLoop (Suc (n + k) + length vs) ts [] iter"
    by (simp only: ReadAny.simps assms(1) prod.case ValueType.case)
  also have "\<dots> = readArrayLoop (Suc (n + k)) ts ([] @ vs) iter'"
    by (rule readArrayLoop_elements [OF assms(2)]) simp
  also have "\<dots> = Return (None, iter2)"
    using assms(3) el assms(5) by simp
  finally show ?thesis .
qed

lemma ReadAny_object_complete:
  assumes "WhatIsNext ts iter0 = (Object, itera)"
    and "ReadObject ts itera = (field, iter)"
    and "fieldsParsed n ts field iter kvs [] iter'"
  shows "ReadAny (Suc (Suc n) + length kvs + k) ts iter0 =
           Return (Some (MakeAny (map_v (foldl assign Map.empty kvs))), iter')"
proof -
  have "Suc (Suc n) + length kvs + k = Suc (Suc (n + k) + length kvs)"
    by simp
  then have "ReadAny (Suc (Suc n) + length kvs + k) ts iter0 =
      readObjectLoop (Suc (n + k) + length kvs) ts Map.empty field iter"
    by (simp only: ReadAny.simps assms(1,2) prod.case ValueType.case)
  also have "\<dots> = readObjectLoop (Suc (n + k)) ts (foldl assign Map.empty kvs) [] iter'"
    by (rule readObjectLoop_fields [OF assms(3)]) simp
  also have "\<dots> = Return (Some (MakeAny (map_v (foldl assign Map.empty kvs))), iter')"
    by simp
  finally show ?thesis .
qed

lemma ReadAny_object_error:
  assumes "WhatIsNext ts iter0 = (Object, itera)"
    and "ReadObject ts itera = (field, iter)"
    and "fieldsParsed n ts field iter kvs field' iter'"
    and "field' \<noteq> []"
    and "ReadAny n ts iter' = Return (element, iter2)"
    and "Error iter2 \<noteq> None"
  shows "ReadAny (Suc (Suc n) + length kvs + k) ts iter0 = Return (None, iter2)"
proof -
  have el: "ReadAny (n + k) ts iter' = Return (element, iter2)"
    by (rule ReadAny_more_fuel [OF assms(5)]) simp
  have "Suc (Suc n) + length kvs + k = Suc (Suc (n + k) + length kvs)"
    by simp
  then have "ReadAny (Suc (Suc n) + length kvs + k) ts iter0 =
      readObjectLoop (Suc (n + k) + length kvs) ts Map.empty field iter"
    by (simp only: ReadAny.simps assms(1,2) prod.case ValueType.case)
  also have "\<dots> = readObjectLoop (Suc (n + k)) ts (foldl assign Map.empty kvs) field' iter'"
    by (rule readObjectLoop_fields [OF assms(3)]) simp
  also have "\<dots> = Return (None, iter2)"
    using assms(4) el assms(6) by simp
  finally show ?thesis .
qed

lemma ReadAny_other_kind:
  assumes "WhatIsNext ts iter0 = (OtherValueType j, iter)"
  shows "ReadAny (Suc k) ts iter0 =
     Return (Some (MakeAny nil_v),
       reportError ts ''ReadAny''
         (''unexpected value type: '' @ formatValueType ts (OtherValueType j)) iter)"
  using assms by simp

lemma readNumber_nil_error:
  "readNumber sc iter = Return (None, iter') \<Longrightarrow> Error iter' \<noteq> None"
  by (auto simp: readNumber_def Let_def split: outcome.splits prod.splits if_splits sum.splits)

lemma readArrayLoop_nil_error:
  "readArrayLoop n ts vals iter = Return (None, iter') \<Longrightarrow> Error iter' \<noteq> None"
proof (induction n arbitrary: vals iter)
  case 0
  then show ?case by simp
next
  case (Suc n)
  obtain b iter1 where ra: "ReadArray ts iter = (b, iter1)"
    by (cases "ReadArray ts iter")
  show ?case
  proof (cases b)
    case False
    with Suc.prems ra show ?thesis by simp
  next
    case True
    show ?thesis
    proof (cases "ReadAny n ts iter1")
      case (Return r)
      obtain element iter2 where r: "r = (element, iter2)" by (cases r)
      show ?thesis
      proof (cases "Error iter2 \<noteq> None")
        case True
        with Suc.prems ra \<open>b\<close> Return r show ?thesis by auto
      next
        case False
        with Suc.prems ra \<open>b\<close> Return r obtain e where
          "readArrayLoop n ts (vals @ [val e]) iter2 = Return (None, iter')"
          by (cases element) simp_all
        then show ?thesis by (rule Suc.IH)
      qed
    next
      case Panic
      with Suc.prems ra True show ?thesis by simp
    next
      case OutOfFuel
      with Suc.prems ra True show ?thesis by simp
    qed
  qed
qed

lemma readObjectLoop_nil_error:
  "readObjectLoop n ts fvals field iter = Return (None, iter') \<Longrightarrow> Error iter' \<noteq> None"
proof (induction n arbitrary: fvals field iter)
  case 0
  then show ?case by simp
next
  case (Suc n)
  show ?case
  proof (cases "field = []")
    case True
    with Suc.prems show ?thesis by simp
  next
    case ne: False
    show ?thesis
    proof (cases "ReadAny n ts iter")
      case (Return r)
      obtain element iter2 where r: "r = (element, iter2)" by (cases r)
      show ?thesis
      proof (cases "Error iter2 \<noteq> None")
        case True
        with Suc.prems ne Return r show ?thesis by auto
      next
        case False
        obtain field2 iter3 where ro: "ReadObject ts iter2 = (field2, iter3)"
          by (cases "ReadObject ts iter2")
        from False Suc.prems ne Return r ro obtain e where
          "readObjectLoop n ts (fvals(field \<mapsto> val e)) field2 iter3 = Return (None, iter')"
          by (cases element) simp_all
        then show ?thesis by (rule Suc.IH)
      qed
    next
      case Panic
      with Suc.prems ne show ?thesis by simp
    next
      case OutOfFuel
      with Suc.prems ne show ?thesis by simp
    qed
  qed
qed

lemma ReadAny_nil_error:
  "ReadAny n ts iter = Return (None, iter') \<Longrightarrow> Error iter' \<noteq> None"
proof (cases n)
  case 0
  assume "ReadAny n ts iter = Return (None, iter')"
  with 0 show ?thesis by simp
next
  case (Suc m)
  assume a: "ReadAny n ts iter = Return (None, iter')"
  obtain valueType iter1 where w: "WhatIsNext ts iter = (valueType, iter1)"
    by (cases "WhatIsNext ts iter")
  show ?thesis
  proof (cases valueType)
    case Number
    with a Suc w show ?thesis by (auto dest: readNumber_nil_error)
  next
    case Array
    with a Suc w show ?thesis by (auto dest: readArrayLoop_nil_error)
  next
    case Object
    with a Suc w show ?thesis
      by (auto split: prod.splits dest: readObjectLoop_nil_error)
  qed (use a Suc w in \<open>auto split: prod.splits\<close>)
qed

text \<open>Every run of a loop that returns is a run of parsed elements, ended in one of two ways.\<close>

lemma elementsParsed_more_fuel:
  "elementsParsed n ts iter vs iter' \<Longrightarrow> n \<le> m \<Longrightarrow> elementsParsed m ts iter vs iter'"
proof (induction vs arbitrary: iter)
  case Nil
  then show ?case by simp
next
  case (Cons v vs)
  obtain b itera where ra: "ReadArray ts iter = (b, itera)"
    by (cases "ReadArray ts iter")
  from Cons.prems(1) ra have b: "b" by simp
  from Cons.prems(1) ra obtain r where r: "ReadAny n ts itera = Return r"
    by (cases "ReadAny n ts itera") simp_all
  obtain eo iterb where rr: "r = (eo, iterb)" by (cases r)
  from Cons.prems(1) ra r rr obtain e where e: "eo = Some e"
    by (cases eo) simp_all
  from Cons.prems(1) ra r rr e have ok: "Error iterb = None" and v: "val e = v"
    and rest: "elementsParsed n ts iterb vs iter'"
    by simp_all
  from r rr e Cons.prems(2) have "ReadAny m ts itera = Return (Some e, iterb)"
    using ReadAny_more_fuel [of n ts itera "(Some e, iterb)" m] by simp
  moreover from rest Cons.prems(2) have "elementsParsed m ts iterb vs iter'"
    by (rule Cons.IH)
  ultimately show ?case
    using ra b ok v by simp
qed

lemma readArrayLoop_trace:
  "readArrayLoop n ts acc iter = Return (ret, it) \<Longrightarrow>
     \<exists>vs iter'. elementsParsed n ts iter vs iter' \<and>
       ((ReadArray ts iter' = (False, it) \<and> ret = Some (MakeAny (slice_v (acc @ vs))))
        \<or> (\<exists>itera element. ReadArray ts iter' = (True, itera)
              \<and> ReadAny n ts itera = Return (element, it) \<and> Error it \<noteq> None \<and> ret = None))"
proof (induction n arbitrary: acc iter)
  case 0
  then show ?case by simp
next
  case (Suc n)
  obtain b itera where ra: "ReadArray ts iter = (b, itera)"
    by (cases "ReadArray ts iter")
  show ?case
  proof (cases b)
    case False
    with Suc.prems ra have "ReadArray ts iter = (False, it)"
      and "ret = Some (MakeAny (slice_v (acc @ [])))"
      by simp_all
    moreover have "elementsParsed (Suc n) ts iter [] iter" by simp
    ultimately show ?thesis by blast
  next
    case True
    from Suc.prems ra True obtain r where r: "ReadAny n ts itera = Return r"
      by (cases "ReadAny n ts itera") simp_all
    obtain element iterb where rr: "r = (element, iterb)" by (cases r)
    from r rr have up: "ReadAny (Suc n) ts itera = Return (element, iterb)"
      using ReadAny_more_fuel [of n ts itera "(element, iterb)" "Suc n"]
      by (simp del: ReadAny.simps)
    show ?thesis
    proof (cases "Error iterb \<noteq> None")
      case err: True
      with Suc.prems ra True r rr have "it = iterb" and "ret = None"
        by simp_all
      with ra True up err have "ReadArray ts iter = (True, itera)
          \<and> ReadAny (Suc n) ts itera = Return (element, it) \<and> Error it \<noteq> None \<and> ret = None"
        by simp
      moreover have "elementsParsed (Suc n) ts iter [] iter" by simp
      ultimately show ?thesis by blast
    next
      case ok: False
      with Suc.prems ra True r rr obtain e where e: "element = Some e"
        and loop: "readArrayLoop n ts (acc @ [val e]) iterb = Return (ret, it)"
        by (cases element) simp_all
      from Suc.IH [OF loop] obtain vs iter' where
        tr: "elementsParsed n ts iterb vs iter'"
        and fin: "(ReadArray ts iter' = (False, it) \<and> ret = Some (MakeAny (slice_v ((acc @ [val e]) @ vs))))
          \<or> (\<exists>itera element. ReadArray ts iter' = (True, itera)
              \<and> ReadAny n ts itera = Return (element, it) \<and> Error it \<noteq> None \<and> ret = None)"
        by blast
      from tr have tr': "elementsParsed (Suc n) ts iterb vs iter'"
        by (rule elementsParsed_more_fuel) simp
      from ra True up e ok tr' have el: "elementsParsed (Suc n) ts iter (val e # vs) iter'"
        by simp
      have lift: "\<And>i el. ReadAny n ts i = Return (el, it) \<Longrightarrow>
          ReadAny (Suc n) ts i = Return (el, it)"
        by (erule ReadAny_more_fuel) simp
      from fin have "(ReadArray ts iter' = (False, it) \<and> ret = Some (MakeAny (slice_v (acc @ val e # vs))))
          \<or> (\<exists>itera element. ReadArray ts iter' = (True, itera)
              \<and> ReadAny (Suc n) ts itera = Return (element, it) \<and> Error it \<noteq> None \<and> ret = None)"
        using lift by (simp del: ReadAny.simps) blast
      with el show ?thesis by blast
    qed
  qed
qed

lemma fieldsParsed_more_fuel:
  "fieldsParsed n ts field iter kvs field' iter' \<Longrightarrow> n \<le> m \<Longrightarrow>
     fieldsParsed m ts field iter kvs field' iter'"
proof (induction kvs arbitrary: field iter)
  case Nil
  then show ?case by simp
next
  case (Cons kv kvs)
  from Cons.prems(1) have ne: "field \<noteq> []" and k: "fst kv = field"
    by simp_all
  from Cons.prems(1) obtain r where r: "ReadAny n ts iter = Return r"
    by (cases "ReadAny n ts iter") simp_all
  obtain eo iterb where rr: "r = (eo, iterb)" by (cases r)
  from Cons.prems(1) r rr obtain e where e: "eo = Some e"
    by (cases eo) simp_all
  obtain fieldb iterc where ro: "ReadObject ts iterb = (fieldb, iterc)"
    by (cases "ReadObject ts iterb")
  from Cons.prems(1) r rr e ro have ok: "Error iterb = None" and v: "val e = snd kv"
    and rest: "fieldsParsed n ts fieldb iterc kvs field' iter'"
    by simp_all
  from r rr e Cons.prems(2) have "ReadAny m ts iter = Return (Some e, iterb)"
    using ReadAny_more_fuel [of n ts iter "(Some e, iterb)" m] by simp
  moreover from rest Cons.prems(2) have "fieldsParsed m ts fieldb iterc kvs field' iter'"
    by (rule Cons.IH)
  ultimately show ?case
    using ne k ok v ro by simp
qed

lemma readObjectLoop_trace:
  "readObjectLoop n ts acc field iter = Return (ret, it) \<Longrightarrow>
     \<exists>kvs field' iter'. fieldsParsed n ts field iter kvs field' iter' \<and>
       ((field' = [] \<and> it = iter' \<and> ret = Some (MakeAny (map_v (foldl assign acc kvs))))
        \<or> (field' \<noteq> [] \<and> (\<exists>element. ReadAny n ts iter' = Return (element, it)
              \<and> Error it \<noteq> None \<and> ret = None)))"
proof (induction n arbitrary: acc field iter)
  case 0
  then show ?case by simp
next
  case (Suc n)
  have lift: "\<And>i el. ReadAny n ts i = Return (el, it) \<Longrightarrow>
      ReadAny (Suc n) ts i = Return (el, it)"
    by (erule ReadAny_more_fuel) simp
  show ?case
  proof (cases "field = []")
    case True
    with Suc.prems have "it = iter" and "ret = Some (MakeAny (map_v (foldl assign acc [])))"
      by simp_all
    moreover from True have "fieldsParsed (Suc n) ts field iter [] [] iter" by simp
    ultimately show ?thesis by blast
  next
    case ne: False
    from Suc.prems ne obtain r where r: "ReadAny n ts iter = Return r"
      by (cases "ReadAny n ts iter") simp_all
    obtain element iterb where rr: "r = (element, iterb)" by (cases r)
    from r rr have up: "ReadAny (Suc n) ts iter = Return (element, iterb)"
      using ReadAny_more_fuel [of n ts iter "(element, iterb)" "Suc n"]
      by (simp del: ReadAny.simps)
    show ?thesis
    proof (cases "Error iterb \<noteq> None")
      case err: True
      with Suc.prems ne r rr have "it = iterb" and "ret = None"
        by simp_all
      with ne up err have "field \<noteq> [] \<and> (\<exists>element. ReadAny (Suc n) ts iter = Return (element, it)
              \<and> Error it \<noteq> None \<and> ret = None)"
        by (simp del: ReadAny.simps)
      moreover have "fieldsParsed (Suc n) ts field iter [] field iter" by simp
      ultimately show ?thesis by blast
    next
      case ok: False
      obtain fieldb iterc where ro: "ReadObject ts iterb = (fieldb, iterc)"
        by (cases "ReadObject ts iterb")
      from ok Suc.prems ne r rr ro obtain e where e: "element = Some e"
        and loop: "readObjectLoop n ts (acc(field \<mapsto> val e)) fieldb iterc = Return (ret, it)"
        by (cases element) simp_all
      from Suc.IH [OF loop] obtain kvs field' iter' where
        tr: "fieldsParsed n ts fieldb iterc kvs field' iter'"
        and fin: "(field' = [] \<and> it = iter'
              \<and> ret = Some (MakeAny (map_v (foldl assign (acc(field \<mapsto> val e)) kvs))))
          \<or> (field' \<noteq> [] \<and> (\<exists>element. ReadAny n ts iter' = Return (element, it)
              \<and> Error it \<noteq> None \<and> ret = None))"
        by blast
      from tr have tr': "fieldsParsed (Suc n) ts fieldb iterc kvs field' iter'"
        by (rule fieldsParsed_more_fuel) simp
      from ne up e ok ro tr' have el:
        "fieldsParsed (Suc n) ts field iter ((field, val e) # kvs) field' iter'"
        by (simp del: ReadAny.simps)
      have fo: "foldl assign acc ((field, val e) # kvs) = foldl assign (acc(field \<mapsto> val e)) kvs"
        by (simp add: assign_def)
      from fin have "(field' = [] \<and> it = iter'
              \<and> ret = Some (MakeAny (map_v (foldl assign acc ((field, val e) # kvs)))))
          \<or> (field' \<noteq> [] \<and> (\<exists>element. ReadAny (Suc n) ts iter' = Return (element, it)
              \<and> Error it \<noteq> None \<and> ret = None))"
        unfolding fo using lift by (simp del: ReadAny.simps) blast
      with el show ?thesis by blast
    qed
  qed
qed

lemma ReadAny_array_trace:
  assumes "WhatIsNext ts iterz = (Array, iter)"
    and "ReadAny n ts iterz = Return (ret, it)"
  shows "\<exists>vs iter'. elementsParsed n ts iter vs iter' \<and>
       ((ReadArray ts iter' = (False, it) \<and> ret = Some (MakeAny (slice_v vs)))
        \<or> (\<exists>itera element. ReadArray ts iter' = (True, itera)
              \<and> ReadAny n ts itera = Return (element, it) \<and> Error it \<noteq> None \<and> ret = None))"
proof (cases n)
  case 0
  with assms(2) show ?thesis by simp
next
  case (Suc m)
  have lift: "\<And>i el. ReadAny m ts i = Return (el, it) \<Longrightarrow> ReadAny n ts i = Return (el, it)"
    by (erule ReadAny_more_fuel) (simp add: Suc)
  from assms Suc have "readArrayLoop m ts [] iter = Return (ret, it)"
    by simp
  from readArrayLoop_trace [OF this] obtain vs iter' where
    tr: "elementsParsed m ts iter vs iter'"
    and fin: "(ReadArray ts iter' = (False, it) \<and> ret = Some (MakeAny (slice_v ([] @ vs))))
        \<or> (\<exists>itera element. ReadArray ts iter' = (True, itera)
              \<and> ReadAny m ts itera = Return (element, it) \<and> Error it \<noteq> None \<and> ret = None)"
    by blast
  from tr have "elementsParsed n ts iter vs iter'"
    by (rule elementsParsed_more_fuel) (simp add: Suc)
  moreover from fin have "(ReadArray ts iter' = (False, it) \<and> ret = Some (MakeAny (slice_v vs)))
        \<or> (\<exists>itera element. ReadArray ts iter' = (True, itera)
              \<and> ReadAny n ts itera = Return (element, it) \<and> Error it \<noteq> None \<and> ret = None)"
    using lift by simp blast
  ultimately show ?thesis by blast
qed

lemma ReadAny_object_trace:
  assumes "WhatIsNext ts iterz = (Object, iter)"
    and "ReadObject ts iter = (field, iterf)"
    and "ReadAny n ts iterz = Return (ret, it)"
  shows "\<exists>kvs field' iter'. fieldsParsed n ts field iterf kvs field' iter' \<and>
       ((field' = [] \<and> it = iter' \<and> ret = Some (MakeAny (map_v (foldl assign Map.empty kvs))))
        \<or> (field' \<noteq> [] \<and> (\<exists>element. ReadAny n ts iter' = Return (element, it)
              \<and> Error it \<noteq> None \<and> ret = None)))"
proof (cases n)
  case 0
  with assms(3) show ?thesis by simp
next
  case (Suc m)
  have lift: "\<And>i el. ReadAny m ts i = Return (el, it) \<Longrightarrow> ReadAny n ts i = Return (el, it)"
    by (erule ReadAny_more_fuel) (simp add: Suc)
  from assms Suc have "readObjectLoop m ts Map.empty field iterf = Return (ret, it)"
    by simp
  from readObjectLoop_trace [OF this] obtain kvs field' iter' where
    tr: "fieldsParsed m ts field iterf kvs field' iter'"
    and fin: "(field' = [] \<and> it = iter'
          \<and> ret = Some (MakeAny (map_v (foldl assign Map.empty kvs))))
        \<or> (field' \<noteq> [] \<and> (\<exists>element. ReadAny m ts iter' = Return (element, it)
              \<and> Error it \<noteq> None \<and> ret = None))"
    by blast
  from tr have "fieldsParsed n ts field iterf kvs field' iter'"
    by (rule fieldsParsed_more_fuel) (simp add: Suc)
  moreover from fin have "(field' = [] \<and> it = iter'
          \<and> ret = Some (MakeAny (map_v (foldl assign Map.empty kvs))))
        \<or> (field' \<noteq> [] \<and> (\<exists>element. ReadAny n ts iter' = Return (element, it)
              \<and> Error it \<noteq> None \<and> ret = None))"
    using lift by blast
  ultimately show ?thesis by blast
qed

lemmas sample_defs = sampleTokens_def sampleWhatIsNext_def sampleReadString_def sampleReadBool_def
  sampleReadNil_def sampleReadArray_def sampleReadObject_def sampleReportError_def
  sampleFormatValueType_def sampleStrconv_def sampleParseUint_def sampleParseInt_def
  sampleParseFloat_def peekChar_def advance_def ParseString_def
  readNumber_def scanLoop.simps scanBuf.simps scanChar_def plusOrDigit_def floatMark_def
  loadMore_def

section \<open>The compiler and the cache, step by step\<close>

lemma decoderOfPtr_Any:
  "TypeString t = ''jsoniter.Any'' \<Longrightarrow> decoderOfPtr dos G t = Return (Inr anyDecoder)"
  by (simp add: decoderOfPtr.simps)

lemma decoderOfPtr_registered:
  "TypeString t \<noteq> ''jsoniter.Any'' \<Longrightarrow> typeDecoders G (TypeString t) = Some d \<Longrightarrow>
     decoderOfPtr dos G t = Return (Inr d)"
  by (simp add: decoderOfPtr.simps)

lemma decoderOfPtr_by_kind:
  "TypeString t \<noteq> ''jsoniter.Any'' \<Longrightarrow> typeDecoders G (TypeString t) = None \<Longrightarrow>
     decoderOfPtr dos G t =
       (case Kind t of
                reflect_String \<Rightarrow> Return (Inr stringDecoder)
              | reflect_Int \<Rightarrow> Return (Inr intDecoder)
              | reflect_Int8 \<Rightarrow> Return (Inr int8Decoder)
              | reflect_Int16 \<Rightarrow> Return (Inr int16Decoder)
              | reflect_Int32 \<Rightarrow> Return (Inr int32Decoder)
              | reflect_Int64 \<Rightarrow> Return (Inr int64Decoder)
              | reflect_Uint \<Rightarrow> Return (Inr uintDecoder)
              | reflect_Uint8 \<Rightarrow> Return (Inr uint8Decoder)
              | reflect_Uint16 \<Rightarrow> Return (Inr uint16Decoder)
              | reflect_Uint32 \<Rightarrow> Return (Inr uint32Decoder)
              | reflect_Uint64 \<Rightarrow> Return (Inr uint64Decoder)
              | reflect_Float32 \<Rightarrow> Return (Inr float32Decoder)
              | reflect_Float64 \<Rightarrow> Return (Inr float64Decoder)
              | reflect_Bool \<Rightarrow> Return (Inr boolDecoder)
              | reflect_Interface \<Rightarrow> Return (Inr interfaceDecoder)
              | reflect_Struct \<Rightarrow> dos G t
              | reflect_Slice \<Rightarrow> addTo ''[slice]'' (decoderOfSlice dos G t)
              | reflect_Map \<Rightarrow> addTo ''[map]'' (decoderOfMap dos G t)
              | reflect_Ptr \<Rightarrow>
                  (case Elem t of
                     None \<Rightarrow> Panic
                   | Some e \<Rightarrow> addTo ''[optional]'' (decoderOfOptional dos G e))
              | _ \<Rightarrow> Return (Inl (errorString (''unsupported type: '' @ TypeString t))))"
  by (simp add: decoderOfPtr.simps)

lemma decoderOfMap_value:
  "Elem t = Some e \<Longrightarrow>
     decoderOfMap dos G t =
       (case decoderOfPtr dos G e of
          Return (Inl err) \<Rightarrow> Return (Inl err)
        | Return (Inr decoder) \<Rightarrow> Return (Inr (mapDecoder t e decoder))
        | Panic \<Rightarrow> Panic
        | OutOfFuel \<Rightarrow> OutOfFuel)"
  by (simp add: decoderOfMap.simps)

lemma addDecoderToCache_once:
  assumes "DECODERS G < length (maps G)"
  shows "addDecoderToCache cacheKey decoder G =
     Return (G\<lparr>maps := maps G @ [(maps G ! DECODERS G)(cacheKey \<mapsto> decoder)],
               DECODERS := length (maps G)\<rparr>)"
  using assms
  by (subst addDecoderToCache.simps)
     (simp add: LoadPointer_def deref_def new_map_def CompareAndSwapPointer_def)

section \<open>The number scanner classifies by the shape of the literal\<close>

text \<open>
  C1, amended. On an iterator whose window lies inside its buffer, \<^verbatim>\<open>readNumber\<close>
  accumulates the longest run of the characters \<^verbatim>\<open>-\<close>, \<^verbatim>\<open>+\<close>, digits,
  \<^verbatim>\<open>.\<close>, \<^verbatim>\<open>e\<close>, \<^verbatim>\<open>E\<close> at the front of the input, across refills, and
  its two flags are lexical properties of that literal. If the error slot then holds an
  error other than \<^verbatim>\<open>io.EOF\<close>, it returns nil and parses nothing. Otherwise: a
  literal with \<^verbatim>\<open>.\<close>, \<^verbatim>\<open>e\<close> or \<^verbatim>\<open>E\<close> goes to the float parser and gives a
  float-64 \<^verbatim>\<open>Any\<close>; else one with \<^verbatim>\<open>-\<close> goes to the signed parser and gives a
  signed-64 \<^verbatim>\<open>Any\<close>; else it goes to the unsigned parser and gives an unsigned-64
  \<^verbatim>\<open>Any\<close>; a failure of the chosen parser is written to the error slot and the
  result is nil. In particular an input that is exactly \<^verbatim>\<open>-42\<close>, \<^verbatim>\<open>42\<close> or
  \<^verbatim>\<open>1.5\<close> and ends with \<^verbatim>\<open>io.EOF\<close> gives signed \<open>-42\<close>, unsigned \<open>42\<close> and
  float \<open>1.5\<close>, when the parser of \<^verbatim>\<open>strconv\<close> reads the literal as that number.
\<close>

theorem readNumber_classification:
  assumes "tail iter \<le> length (buf iter)"
  shows "(\<exists>iter1.
      scanLoop iter \<lparr>str = [], foundFloat = False, foundNegative = False\<rparr> =
        Return (iter1, \<lparr>str = takeWhile numeric (input iter),
                         foundFloat = list_ex floatMark (takeWhile numeric (input iter)),
                         foundNegative = (CHR ''-'' \<in> set (takeWhile numeric (input iter)))\<rparr>)
      \<and> Error iter1 =
          (if takeWhile numeric (input iter) = input iter then Some (readerEnd iter)
           else Error iter)
      \<and> readNumber sc iter =
          (if Error iter1 \<noteq> None \<and> Error iter1 \<noteq> Some EOF then Return (None, iter1)
           else if list_ex floatMark (takeWhile numeric (input iter)) then
             (case ParseFloat sc (takeWhile numeric (input iter)) of
                Inl err \<Rightarrow> Return (None, iter1\<lparr>Error := Some err\<rparr>)
              | Inr v \<Rightarrow> Return (Some (MakeAny (float64_v v)), iter1))
           else if CHR ''-'' \<in> set (takeWhile numeric (input iter)) then
             (case ParseInt sc (takeWhile numeric (input iter)) of
                Inl err \<Rightarrow> Return (None, iter1\<lparr>Error := Some err\<rparr>)
              | Inr v \<Rightarrow> Return (Some (MakeAny (int64_v v)), iter1))
           else
             (case ParseUint sc (takeWhile numeric (input iter)) of
                Inl err \<Rightarrow> Return (None, iter1\<lparr>Error := Some err\<rparr>)
              | Inr v \<Rightarrow> Return (Some (MakeAny (uint64_v v)), iter1))))
    \<and> (input iter = ''-42'' \<and> readerEnd iter = EOF \<and> ParseInt sc ''-42'' = Inr (- 42) \<longrightarrow>
         (\<exists>iter1. readNumber sc iter = Return (Some (MakeAny (int64_v (- 42))), iter1)))
    \<and> (input iter = ''42'' \<and> readerEnd iter = EOF \<and> ParseUint sc ''42'' = Inr 42 \<longrightarrow>
         (\<exists>iter1. readNumber sc iter = Return (Some (MakeAny (uint64_v 42)), iter1)))
    \<and> (input iter = ''1.5'' \<and> readerEnd iter = EOF \<and> ParseFloat sc ''1.5'' = Inr (3 / 2) \<longrightarrow>
         (\<exists>iter1. readNumber sc iter = Return (Some (MakeAny (float64_v (3 / 2))), iter1)))"
proof (intro conjI impI)
  show "\<exists>iter1.
      scanLoop iter \<lparr>str = [], foundFloat = False, foundNegative = False\<rparr> =
        Return (iter1, \<lparr>str = takeWhile numeric (input iter),
                         foundFloat = list_ex floatMark (takeWhile numeric (input iter)),
                         foundNegative = (CHR ''-'' \<in> set (takeWhile numeric (input iter)))\<rparr>)
      \<and> Error iter1 =
          (if takeWhile numeric (input iter) = input iter then Some (readerEnd iter)
           else Error iter)
      \<and> readNumber sc iter =
          (if Error iter1 \<noteq> None \<and> Error iter1 \<noteq> Some EOF then Return (None, iter1)
           else if list_ex floatMark (takeWhile numeric (input iter)) then
             (case ParseFloat sc (takeWhile numeric (input iter)) of
                Inl err \<Rightarrow> Return (None, iter1\<lparr>Error := Some err\<rparr>)
              | Inr v \<Rightarrow> Return (Some (MakeAny (float64_v v)), iter1))
           else if CHR ''-'' \<in> set (takeWhile numeric (input iter)) then
             (case ParseInt sc (takeWhile numeric (input iter)) of
                Inl err \<Rightarrow> Return (None, iter1\<lparr>Error := Some err\<rparr>)
              | Inr v \<Rightarrow> Return (Some (MakeAny (int64_v v)), iter1))
           else
             (case ParseUint sc (takeWhile numeric (input iter)) of
                Inl err \<Rightarrow> Return (None, iter1\<lparr>Error := Some err\<rparr>)
              | Inr v \<Rightarrow> Return (Some (MakeAny (uint64_v v)), iter1)))"
    by (rule readNumber_spec [OF assms])
next
  assume h: "input iter = ''-42'' \<and> readerEnd iter = EOF \<and> ParseInt sc ''-42'' = Inr (- 42)"
  have lit: "takeWhile numeric ''-42'' = ''-42''"
    by (simp add: numeric_def plusOrDigit_def)
  show "\<exists>iter1. readNumber sc iter = Return (Some (MakeAny (int64_v (- 42))), iter1)"
  proof -
    from h lit have tw: "takeWhile numeric (input iter) = input iter"
      and tl: "takeWhile numeric (input iter) = ''-42''" by simp_all
    from readNumber_spec [OF assms, of sc] obtain iter1 where
      "Error iter1 = (if takeWhile numeric (input iter) = input iter
          then Some (readerEnd iter) else Error iter)"
      and rn: "readNumber sc iter =
          (if Error iter1 \<noteq> None \<and> Error iter1 \<noteq> Some EOF then Return (None, iter1)
           else if list_ex floatMark (takeWhile numeric (input iter)) then
             (case ParseFloat sc (takeWhile numeric (input iter)) of
                Inl err \<Rightarrow> Return (None, iter1\<lparr>Error := Some err\<rparr>)
              | Inr v \<Rightarrow> Return (Some (MakeAny (float64_v v)), iter1))
           else if CHR ''-'' \<in> set (takeWhile numeric (input iter)) then
             (case ParseInt sc (takeWhile numeric (input iter)) of
                Inl err \<Rightarrow> Return (None, iter1\<lparr>Error := Some err\<rparr>)
              | Inr v \<Rightarrow> Return (Some (MakeAny (int64_v v)), iter1))
           else
             (case ParseUint sc (takeWhile numeric (input iter)) of
                Inl err \<Rightarrow> Return (None, iter1\<lparr>Error := Some err\<rparr>)
              | Inr v \<Rightarrow> Return (Some (MakeAny (uint64_v v)), iter1)))"
      by blast
    with h tw have er: "Error iter1 = Some EOF" by simp
    show ?thesis
      unfolding rn tl using h by (simp add: er floatMark_def)
  qed
next
  assume h: "input iter = ''42'' \<and> readerEnd iter = EOF \<and> ParseUint sc ''42'' = Inr 42"
  have lit: "takeWhile numeric ''42'' = ''42''"
    by (simp add: numeric_def plusOrDigit_def)
  show "\<exists>iter1. readNumber sc iter = Return (Some (MakeAny (uint64_v 42)), iter1)"
  proof -
    from h lit have tw: "takeWhile numeric (input iter) = input iter"
      and tl: "takeWhile numeric (input iter) = ''42''" by simp_all
    from readNumber_spec [OF assms, of sc] obtain iter1 where
      "Error iter1 = (if takeWhile numeric (input iter) = input iter
          then Some (readerEnd iter) else Error iter)"
      and rn: "readNumber sc iter =
          (if Error iter1 \<noteq> None \<and> Error iter1 \<noteq> Some EOF then Return (None, iter1)
           else if list_ex floatMark (takeWhile numeric (input iter)) then
             (case ParseFloat sc (takeWhile numeric (input iter)) of
                Inl err \<Rightarrow> Return (None, iter1\<lparr>Error := Some err\<rparr>)
              | Inr v \<Rightarrow> Return (Some (MakeAny (float64_v v)), iter1))
           else if CHR ''-'' \<in> set (takeWhile numeric (input iter)) then
             (case ParseInt sc (takeWhile numeric (input iter)) of
                Inl err \<Rightarrow> Return (None, iter1\<lparr>Error := Some err\<rparr>)
              | Inr v \<Rightarrow> Return (Some (MakeAny (int64_v v)), iter1))
           else
             (case ParseUint sc (takeWhile numeric (input iter)) of
                Inl err \<Rightarrow> Return (None, iter1\<lparr>Error := Some err\<rparr>)
              | Inr v \<Rightarrow> Return (Some (MakeAny (uint64_v v)), iter1)))"
      by blast
    with h tw have er: "Error iter1 = Some EOF" by simp
    show ?thesis
      unfolding rn tl using h by (simp add: er floatMark_def)
  qed
next
  assume h: "input iter = ''1.5'' \<and> readerEnd iter = EOF \<and> ParseFloat sc ''1.5'' = Inr (3 / 2)"
  have lit: "takeWhile numeric ''1.5'' = ''1.5''"
    by (simp add: numeric_def plusOrDigit_def floatMark_def)
  show "\<exists>iter1. readNumber sc iter = Return (Some (MakeAny (float64_v (3 / 2))), iter1)"
  proof -
    from h lit have tw: "takeWhile numeric (input iter) = input iter"
      and tl: "takeWhile numeric (input iter) = ''1.5''" by simp_all
    from readNumber_spec [OF assms, of sc] obtain iter1 where
      "Error iter1 = (if takeWhile numeric (input iter) = input iter
          then Some (readerEnd iter) else Error iter)"
      and rn: "readNumber sc iter =
          (if Error iter1 \<noteq> None \<and> Error iter1 \<noteq> Some EOF then Return (None, iter1)
           else if list_ex floatMark (takeWhile numeric (input iter)) then
             (case ParseFloat sc (takeWhile numeric (input iter)) of
                Inl err \<Rightarrow> Return (None, iter1\<lparr>Error := Some err\<rparr>)
              | Inr v \<Rightarrow> Return (Some (MakeAny (float64_v v)), iter1))
           else if CHR ''-'' \<in> set (takeWhile numeric (input iter)) then
             (case ParseInt sc (takeWhile numeric (input iter)) of
                Inl err \<Rightarrow> Return (None, iter1\<lparr>Error := Some err\<rparr>)
              | Inr v \<Rightarrow> Return (Some (MakeAny (int64_v v)), iter1))
           else
             (case ParseUint sc (takeWhile numeric (input iter)) of
                Inl err \<Rightarrow> Return (None, iter1\<lparr>Error := Some err\<rparr>)
              | Inr v \<Rightarrow> Return (Some (MakeAny (uint64_v v)), iter1)))"
      by blast
    with h tw have er: "Error iter1 = Some EOF" by simp
    show ?thesis
      unfolding rn tl using h by (simp add: er floatMark_def)
  qed
qed

text \<open>
  The three examples run: \<^verbatim>\<open>-42\<close> split over a refill, \<^verbatim>\<open>42\<close> at the end of a
  buffer, \<^verbatim>\<open>1.5\<close> delivered one character at a time.
\<close>

theorem readNumber_classification_witness:
  "tail \<lparr>buf = ''-4'', head = 0, tail = 2, Error = None, reader = [''2''], readerEnd = EOF\<rparr>
      \<le> length (buf \<lparr>buf = ''-4'', head = 0, tail = 2, Error = None, reader = [''2''], readerEnd = EOF\<rparr>)
   \<and> input \<lparr>buf = ''-4'', head = 0, tail = 2, Error = None, reader = [''2''], readerEnd = EOF\<rparr> = ''-42''
   \<and> ParseInt sampleStrconv ''-42'' = Inr (- 42)
   \<and> (\<exists>iter1. readNumber sampleStrconv
          \<lparr>buf = ''-4'', head = 0, tail = 2, Error = None, reader = [''2''], readerEnd = EOF\<rparr>
        = Return (Some (MakeAny (int64_v (- 42))), iter1))
   \<and> input \<lparr>buf = ''[42'', head = 1, tail = 3, Error = None, reader = [], readerEnd = EOF\<rparr> = ''42''
   \<and> ParseUint sampleStrconv ''42'' = Inr 42
   \<and> (\<exists>iter1. readNumber sampleStrconv
          \<lparr>buf = ''[42'', head = 1, tail = 3, Error = None, reader = [], readerEnd = EOF\<rparr>
        = Return (Some (MakeAny (uint64_v 42)), iter1))
   \<and> input \<lparr>buf = ''1'', head = 0, tail = 1, Error = None, reader = [''.'', ''5''], readerEnd = EOF\<rparr> = ''1.5''
   \<and> ParseFloat sampleStrconv ''1.5'' = Inr (3 / 2)
   \<and> (\<exists>iter1. readNumber sampleStrconv
          \<lparr>buf = ''1'', head = 0, tail = 1, Error = None, reader = [''.'', ''5''], readerEnd = EOF\<rparr>
        = Return (Some (MakeAny (float64_v (3 / 2))), iter1))"
proof -
  let ?a = "\<lparr>buf = ''-4'', head = 0, tail = 2, Error = None, reader = [''2''], readerEnd = EOF\<rparr>"
  let ?b = "\<lparr>buf = ''[42'', head = 1, tail = 3, Error = None, reader = [], readerEnd = EOF\<rparr>"
  let ?c = "\<lparr>buf = ''1'', head = 0, tail = 1, Error = None, reader = [''.'', ''5''], readerEnd = EOF\<rparr>"
  have wa: "tail ?a \<le> length (buf ?a)" and wb: "tail ?b \<le> length (buf ?b)"
    and wc: "tail ?c \<le> length (buf ?c)"
    by simp_all
  have ia: "input ?a = ''-42''" and ib: "input ?b = ''42''" and ic: "input ?c = ''1.5''"
    by (simp_all add: input_def window_def)
  have pa: "ParseInt sampleStrconv ''-42'' = Inr (- 42)"
    and pb: "ParseUint sampleStrconv ''42'' = Inr 42"
    and pc: "ParseFloat sampleStrconv ''1.5'' = Inr (3 / 2)"
    by (simp_all add: sampleStrconv_def sampleParseInt_def sampleParseUint_def sampleParseFloat_def)
  have ea: "readerEnd ?a = EOF" and eb: "readerEnd ?b = EOF" and ec: "readerEnd ?c = EOF"
    by simp_all
  from readNumber_classification [OF wa, of sampleStrconv] ia ea pa
  have ra: "\<exists>iter1. readNumber sampleStrconv ?a = Return (Some (MakeAny (int64_v (- 42))), iter1)"
    by blast
  from readNumber_classification [OF wb, of sampleStrconv] ib eb pb
  have rb: "\<exists>iter1. readNumber sampleStrconv ?b = Return (Some (MakeAny (uint64_v 42)), iter1)"
    by blast
  from readNumber_classification [OF wc, of sampleStrconv] ic ec pc
  have rc: "\<exists>iter1. readNumber sampleStrconv ?c = Return (Some (MakeAny (float64_v (3 / 2))), iter1)"
    by blast
  from wa ia pa ra ib pb rb ic pc rc show ?thesis by blast
qed

text \<open>
  C1 as stated fails where the error slot already holds an error other than
  \<^verbatim>\<open>io.EOF\<close>: the literal \<^verbatim>\<open>42\<close> is accumulated, it has no float mark and no
  minus sign, the unsigned parser would read it as 42, and yet the result is nil, with
  the literal's end not consumed and the error slot as it was.
\<close>

theorem readNumber_pending_error_counterexample:
  "takeWhile numeric
     (input \<lparr>buf = ''42,'', head = 0, tail = 3, Error = Some (errorString ''unexpected end''),
             reader = [], readerEnd = EOF\<rparr>) = ''42''
   \<and> \<not> list_ex floatMark ''42'' \<and> CHR ''-'' \<notin> set ''42''
   \<and> ParseUint sampleStrconv ''42'' = Inr 42
   \<and> readNumber sampleStrconv
        \<lparr>buf = ''42,'', head = 0, tail = 3, Error = Some (errorString ''unexpected end''),
         reader = [], readerEnd = EOF\<rparr>
      = Return (None,
        \<lparr>buf = ''42,'', head = 2, tail = 3, Error = Some (errorString ''unexpected end''),
         reader = [], readerEnd = EOF\<rparr>)"
  by (simp add: input_def window_def numeric_def plusOrDigit_def floatMark_def
        sampleStrconv_def sampleParseUint_def
        readNumber_def scanLoop.simps scanBuf.simps scanChar_def)

section \<open>\<^verbatim>\<open>ReadAny\<close> on arrays, objects and unexpected kinds\<close>

text \<open>
  C8. On an array token \<^verbatim>\<open>ReadAny\<close> parses the elements one after the other: when
  the elements \<open>vs\<close> have parsed without an error and \<^verbatim>\<open>ReadArray\<close> then reports the
  end, the result is the sequence \<open>vs\<close>, in the order they were parsed; when instead
  the next element's parse leaves an error in the error slot, \<^verbatim>\<open>ReadAny\<close> returns at
  once, with the iterator exactly as that element's parse left it, so that nothing more
  is consumed. On an object token it does the same field by field, into the mapping
  that the assignments build from the empty one. On a kind other than string, number,
  null, boolean, array and object it reports the error
  \<^verbatim>\<open>unexpected value type\<close> through \<^verbatim>\<open>reportError\<close>. Each result holds for every
  amount of fuel from the stated one on. Conversely, every call on an array or object
  token that returns has run in this way: some elements parsed in order without an
  error, and then either the end was reported, and the result holds them all, or the
  next parse left an error, and that parse is the last thing that touched the iterator.
\<close>

theorem ReadAny_in_order_until_first_error:
  "(WhatIsNext ts iterz = (Array, iter) \<and> elementsParsed n ts iter vs iter'
      \<and> ReadArray ts iter' = (False, iter'') \<longrightarrow>
      (\<forall>k. ReadAny (Suc (Suc n) + length vs + k) ts iterz =
            Return (Some (MakeAny (slice_v vs)), iter'')))
   \<and> (WhatIsNext ts iterz = (Array, iter) \<and> elementsParsed n ts iter vs iter'
      \<and> ReadArray ts iter' = (True, itera) \<and> ReadAny n ts itera = Return (element, iterb)
      \<and> Error iterb \<noteq> None \<longrightarrow>
      (\<forall>k. ReadAny (Suc (Suc n) + length vs + k) ts iterz = Return (None, iterb)))
   \<and> (WhatIsNext ts iterz = (Object, iter) \<and> ReadObject ts iter = (field, iterf)
      \<and> fieldsParsed n ts field iterf kvs [] iter' \<longrightarrow>
      (\<forall>k. ReadAny (Suc (Suc n) + length kvs + k) ts iterz =
            Return (Some (MakeAny (map_v (foldl assign Map.empty kvs))), iter')))
   \<and> (WhatIsNext ts iterz = (Object, iter) \<and> ReadObject ts iter = (field, iterf)
      \<and> fieldsParsed n ts field iterf kvs field' iter' \<and> field' \<noteq> []
      \<and> ReadAny n ts iter' = Return (element, iterb) \<and> Error iterb \<noteq> None \<longrightarrow>
      (\<forall>k. ReadAny (Suc (Suc n) + length kvs + k) ts iterz = Return (None, iterb)))
   \<and> (WhatIsNext ts iterz = (OtherValueType j, iter) \<longrightarrow>
      (\<forall>k. ReadAny (Suc k) ts iterz =
            Return (Some (MakeAny nil_v), reportError ts ''ReadAny''
              (''unexpected value type: '' @ formatValueType ts (OtherValueType j)) iter)))
   \<and> (WhatIsNext ts iterz = (Array, iter) \<and> ReadAny n ts iterz = Return (ret, it) \<longrightarrow>
      (\<exists>ws iterw. elementsParsed n ts iter ws iterw \<and>
         ((ReadArray ts iterw = (False, it) \<and> ret = Some (MakeAny (slice_v ws)))
          \<or> (\<exists>iterx elem. ReadArray ts iterw = (True, iterx)
                \<and> ReadAny n ts iterx = Return (elem, it) \<and> Error it \<noteq> None \<and> ret = None))))
   \<and> (WhatIsNext ts iterz = (Object, iter) \<and> ReadObject ts iter = (field, iterf)
      \<and> ReadAny n ts iterz = Return (ret, it) \<longrightarrow>
      (\<exists>kws fieldw iterw. fieldsParsed n ts field iterf kws fieldw iterw \<and>
         ((fieldw = [] \<and> it = iterw
            \<and> ret = Some (MakeAny (map_v (foldl assign Map.empty kws))))
          \<or> (fieldw \<noteq> [] \<and> (\<exists>elem. ReadAny n ts iterw = Return (elem, it)
                \<and> Error it \<noteq> None \<and> ret = None)))))"
proof (intro conjI impI allI)
  assume "WhatIsNext ts iterz = (Array, iter) \<and> ReadAny n ts iterz = Return (ret, it)"
  then show "\<exists>ws iterw. elementsParsed n ts iter ws iterw \<and>
         ((ReadArray ts iterw = (False, it) \<and> ret = Some (MakeAny (slice_v ws)))
          \<or> (\<exists>iterx elem. ReadArray ts iterw = (True, iterx)
                \<and> ReadAny n ts iterx = Return (elem, it) \<and> Error it \<noteq> None \<and> ret = None))"
    using ReadAny_array_trace [of ts iterz iter n ret it] by blast
next
  assume "WhatIsNext ts iterz = (Object, iter) \<and> ReadObject ts iter = (field, iterf)
      \<and> ReadAny n ts iterz = Return (ret, it)"
  then show "\<exists>kws fieldw iterw. fieldsParsed n ts field iterf kws fieldw iterw \<and>
         ((fieldw = [] \<and> it = iterw
            \<and> ret = Some (MakeAny (map_v (foldl assign Map.empty kws))))
          \<or> (fieldw \<noteq> [] \<and> (\<exists>elem. ReadAny n ts iterw = Return (elem, it)
                \<and> Error it \<noteq> None \<and> ret = None)))"
    using ReadAny_object_trace [of ts iterz iter field iterf n ret it] by blast
next
  fix k
  assume "WhatIsNext ts iterz = (Array, iter) \<and> elementsParsed n ts iter vs iter'
      \<and> ReadArray ts iter' = (False, iter'')"
  then show "ReadAny (Suc (Suc n) + length vs + k) ts iterz =
      Return (Some (MakeAny (slice_v vs)), iter'')"
    using ReadAny_array_complete [of ts iterz iter n vs iter' iter'' k] by blast
next
  fix k
  assume "WhatIsNext ts iterz = (Array, iter) \<and> elementsParsed n ts iter vs iter'
      \<and> ReadArray ts iter' = (True, itera) \<and> ReadAny n ts itera = Return (element, iterb)
      \<and> Error iterb \<noteq> None"
  then show "ReadAny (Suc (Suc n) + length vs + k) ts iterz = Return (None, iterb)"
    using ReadAny_array_error [of ts iterz iter n vs iter' itera element iterb k] by blast
next
  fix k
  assume "WhatIsNext ts iterz = (Object, iter) \<and> ReadObject ts iter = (field, iterf)
      \<and> fieldsParsed n ts field iterf kvs [] iter'"
  then show "ReadAny (Suc (Suc n) + length kvs + k) ts iterz =
      Return (Some (MakeAny (map_v (foldl assign Map.empty kvs))), iter')"
    using ReadAny_object_complete [of ts iterz iter field iterf n kvs iter' k] by blast
next
  fix k
  assume "WhatIsNext ts iterz = (Object, iter) \<and> ReadObject ts iter = (field, iterf)
      \<and> fieldsParsed n ts field iterf kvs field' iter' \<and> field' \<noteq> []
      \<and> ReadAny n ts iter' = Return (element, iterb) \<and> Error iterb \<noteq> None"
  then show "ReadAny (Suc (Suc n) + length kvs + k) ts iterz = Return (None, iterb)"
    using ReadAny_object_error [of ts iterz iter field iterf n kvs field' iter' element iterb k]
    by blast
next
  fix k
  assume "WhatIsNext ts iterz = (OtherValueType j, iter)"
  then show "ReadAny (Suc k) ts iterz =
      Return (Some (MakeAny nil_v), reportError ts ''ReadAny''
        (''unexpected value type: '' @ formatValueType ts (OtherValueType j)) iter)"
    by (rule ReadAny_other_kind)
qed

text \<open>
  The documents \<^verbatim>\<open>[1,-2]\<close>, \<^verbatim>\<open>[1,x,3]\<close>, \<^verbatim>\<open>{"a":1}\<close>, \<^verbatim>\<open>{"a":x}\<close> and
  \<^verbatim>\<open>x\<close>, read with the small token source.
\<close>

theorem ReadAny_in_order_until_first_error_witness:
  "elementsParsed (Suc 0) sampleTokens (ParseString ''[1,-2]'') [uint64_v 1, int64_v (- 2)]
      ((ParseString ''[1,-2]'')\<lparr>head := 5\<rparr>)
   \<and> ReadAny (Suc (Suc (Suc 0)) + length [uint64_v 1, int64_v (- 2)] + 0) sampleTokens
        (ParseString ''[1,-2]'') =
      Return (Some (MakeAny (slice_v [uint64_v 1, int64_v (- 2)])),
              (ParseString ''[1,-2]'')\<lparr>head := 6\<rparr>)
   \<and> elementsParsed (Suc 0) sampleTokens (ParseString ''[1,x,3]'') [uint64_v 1]
      ((ParseString ''[1,x,3]'')\<lparr>head := 2\<rparr>)
   \<and> ReadAny (Suc (Suc (Suc 0)) + length [uint64_v 1] + 0) sampleTokens (ParseString ''[1,x,3]'') =
      Return (None, (ParseString ''[1,x,3]'')
        \<lparr>head := 3, Error := Some (errorString ''ReadAny: unexpected value type: 0'')\<rparr>)
   \<and> fieldsParsed (Suc 0) sampleTokens ''a'' ((ParseString (sampleObject ''1''))\<lparr>head := 5\<rparr>)
        [(''a'', uint64_v 1)] [] ((ParseString (sampleObject ''1''))\<lparr>head := 7\<rparr>)
   \<and> ReadAny (Suc (Suc (Suc 0)) + length [(''a'', uint64_v 1)] + 0) sampleTokens
        (ParseString (sampleObject ''1'')) =
      Return (Some (MakeAny (map_v (foldl assign Map.empty [(''a'', uint64_v 1)]))),
              (ParseString (sampleObject ''1''))\<lparr>head := 7\<rparr>)
   \<and> ReadAny (Suc (Suc (Suc 0)) + length ([] :: (string \<times> value) list) + 0) sampleTokens
        (ParseString (sampleObject ''x'')) =
      Return (None, (ParseString (sampleObject ''x''))
        \<lparr>head := 5, Error := Some (errorString ''ReadAny: unexpected value type: 0'')\<rparr>)
   \<and> ReadAny (Suc 0) sampleTokens (ParseString ''x'') =
      Return (Some (MakeAny nil_v), (ParseString ''x'')
        \<lparr>Error := Some (errorString ''ReadAny: unexpected value type: 0'')\<rparr>)
   \<and> ReadAny (Suc (Suc (Suc (Suc 0)))) sampleTokens (ParseString ''[1,x,3]'') =
      Return (None, (ParseString ''[1,x,3]'')
        \<lparr>head := 3, Error := Some (errorString ''ReadAny: unexpected value type: 0'')\<rparr>)
   \<and> (\<exists>ws iterw iterx elem.
        elementsParsed (Suc (Suc (Suc (Suc 0)))) sampleTokens (ParseString ''[1,x,3]'') ws iterw
        \<and> ReadArray sampleTokens iterw = (True, iterx)
        \<and> ReadAny (Suc (Suc (Suc (Suc 0)))) sampleTokens iterx =
            Return (elem, (ParseString ''[1,x,3]'')
              \<lparr>head := 3, Error := Some (errorString ''ReadAny: unexpected value type: 0'')\<rparr>))
   \<and> ReadAny (Suc (Suc (Suc (Suc 0)))) sampleTokens (ParseString (sampleObject ''1'')) =
      Return (Some (MakeAny (map_v [''a'' \<mapsto> uint64_v 1])),
              (ParseString (sampleObject ''1''))\<lparr>head := 7\<rparr>)
   \<and> (\<exists>kws.
        fieldsParsed (Suc (Suc (Suc (Suc 0)))) sampleTokens ''a''
          ((ParseString (sampleObject ''1''))\<lparr>head := 5\<rparr>) kws []
          ((ParseString (sampleObject ''1''))\<lparr>head := 7\<rparr>)
        \<and> map_v [''a'' \<mapsto> uint64_v 1] = map_v (foldl assign Map.empty kws))"
proof -
  let ?ts = sampleTokens
  let ?a = "ParseString ''[1,-2]''"
  let ?b = "ParseString ''[1,x,3]''"
  let ?berr = "?b\<lparr>head := 3, Error := Some (errorString ''ReadAny: unexpected value type: 0'')\<rparr>"
  let ?c = "ParseString (sampleObject ''1'')"
  let ?d = "ParseString (sampleObject ''x'')"
  let ?derr = "?d\<lparr>head := 5, Error := Some (errorString ''ReadAny: unexpected value type: 0'')\<rparr>"
  let ?e = "ParseString ''x''"
  have a1: "WhatIsNext ?ts ?a = (Array, ?a)"
    and a2: "elementsParsed (Suc 0) ?ts ?a [uint64_v 1, int64_v (- 2)] (?a\<lparr>head := 5\<rparr>)"
    and a3: "ReadArray ?ts (?a\<lparr>head := 5\<rparr>) = (False, ?a\<lparr>head := 6\<rparr>)"
    by (simp_all add: sample_defs)
  have b1: "WhatIsNext ?ts ?b = (Array, ?b)"
    and b2: "elementsParsed (Suc 0) ?ts ?b [uint64_v 1] (?b\<lparr>head := 2\<rparr>)"
    and b3: "ReadArray ?ts (?b\<lparr>head := 2\<rparr>) = (True, ?b\<lparr>head := 3\<rparr>)"
    and b4: "ReadAny (Suc 0) ?ts (?b\<lparr>head := 3\<rparr>) = Return (Some (MakeAny nil_v), ?berr)"
    and b5: "Error ?berr \<noteq> None"
    by (simp_all add: sample_defs)
  have c1: "WhatIsNext ?ts ?c = (Object, ?c)"
    and c2: "ReadObject ?ts ?c = (''a'', ?c\<lparr>head := 5\<rparr>)"
    and c3: "fieldsParsed (Suc 0) ?ts ''a'' (?c\<lparr>head := 5\<rparr>) [(''a'', uint64_v 1)] []
        (?c\<lparr>head := 7\<rparr>)"
    by (simp_all add: sample_defs sampleObject_def)
  have d1: "WhatIsNext ?ts ?d = (Object, ?d)"
    and d2: "ReadObject ?ts ?d = (''a'', ?d\<lparr>head := 5\<rparr>)"
    and d3: "fieldsParsed (Suc 0) ?ts ''a'' (?d\<lparr>head := 5\<rparr>) [] ''a'' (?d\<lparr>head := 5\<rparr>)"
    and d4: "''a'' \<noteq> []"
    and d5: "ReadAny (Suc 0) ?ts (?d\<lparr>head := 5\<rparr>) = Return (Some (MakeAny nil_v), ?derr)"
    and d6: "Error ?derr \<noteq> None"
    by (simp_all add: sample_defs sampleObject_def)
  have e1: "WhatIsNext ?ts ?e = (OtherValueType 0, ?e)"
    and e2: "reportError ?ts ''ReadAny''
        (''unexpected value type: '' @ formatValueType ?ts (OtherValueType 0)) ?e =
      ?e\<lparr>Error := Some (errorString ''ReadAny: unexpected value type: 0'')\<rparr>"
    by (simp_all add: sample_defs)
  have ra: "ReadAny (Suc (Suc (Suc 0)) + length [uint64_v 1, int64_v (- 2)] + 0) ?ts ?a =
      Return (Some (MakeAny (slice_v [uint64_v 1, int64_v (- 2)])), ?a\<lparr>head := 6\<rparr>)"
    using ReadAny_in_order_until_first_error
      [where ts = ?ts and iterz = ?a and iter = ?a and n = "Suc 0"
         and vs = "[uint64_v 1, int64_v (- 2)]" and iter' = "?a\<lparr>head := 5\<rparr>"
         and iter'' = "?a\<lparr>head := 6\<rparr>", THEN conjunct1]
      a1 a2 a3 by blast
  have rb: "ReadAny (Suc (Suc (Suc 0)) + length [uint64_v 1] + 0) ?ts ?b = Return (None, ?berr)"
    using ReadAny_in_order_until_first_error
      [where ts = ?ts and iterz = ?b and iter = ?b and n = "Suc 0"
         and vs = "[uint64_v 1]" and iter' = "?b\<lparr>head := 2\<rparr>"
         and itera = "?b\<lparr>head := 3\<rparr>" and element = "Some (MakeAny nil_v)"
         and iterb = ?berr, THEN conjunct2, THEN conjunct1]
      b1 b2 b3 b4 b5 by blast
  have rc: "ReadAny (Suc (Suc (Suc 0)) + length [(''a'', uint64_v 1)] + 0) ?ts ?c =
      Return (Some (MakeAny (map_v (foldl assign Map.empty [(''a'', uint64_v 1)]))),
        ?c\<lparr>head := 7\<rparr>)"
    using ReadAny_in_order_until_first_error
      [where ts = ?ts and iterz = ?c and iter = ?c and n = "Suc 0"
         and field = "''a''" and iterf = "?c\<lparr>head := 5\<rparr>"
         and kvs = "[(''a'', uint64_v 1)]" and iter' = "?c\<lparr>head := 7\<rparr>",
         THEN conjunct2, THEN conjunct2, THEN conjunct1]
      c1 c2 c3 by blast
  have rd: "ReadAny (Suc (Suc (Suc 0)) + length ([] :: (string \<times> value) list) + 0) ?ts ?d =
      Return (None, ?derr)"
    using ReadAny_in_order_until_first_error
      [where ts = ?ts and iterz = ?d and iter = ?d and n = "Suc 0"
         and field = "''a''" and iterf = "?d\<lparr>head := 5\<rparr>"
         and kvs = "[]" and field' = "''a''" and iter' = "?d\<lparr>head := 5\<rparr>"
         and element = "Some (MakeAny nil_v)" and iterb = ?derr,
         THEN conjunct2, THEN conjunct2, THEN conjunct2, THEN conjunct1]
      d1 d2 d3 d4 d5 d6 by blast
  have re: "ReadAny (Suc 0) ?ts ?e =
      Return (Some (MakeAny nil_v),
        ?e\<lparr>Error := Some (errorString ''ReadAny: unexpected value type: 0'')\<rparr>)"
    using ReadAny_in_order_until_first_error
      [where ts = ?ts and iterz = ?e and iter = ?e and j = 0,
         THEN conjunct2, THEN conjunct2, THEN conjunct2, THEN conjunct2, THEN conjunct1]
      e1 e2 by simp
  have evb: "ReadAny (Suc (Suc (Suc (Suc 0)))) ?ts ?b = Return (None, ?berr)"
    and evc: "ReadAny (Suc (Suc (Suc (Suc 0)))) ?ts ?c =
      Return (Some (MakeAny (map_v [''a'' \<mapsto> uint64_v 1])), ?c\<lparr>head := 7\<rparr>)"
    by (simp_all add: sample_defs sampleObject_def)
  have tb: "\<exists>ws iterw iterx elem.
        elementsParsed (Suc (Suc (Suc (Suc 0)))) ?ts ?b ws iterw
        \<and> ReadArray ?ts iterw = (True, iterx)
        \<and> ReadAny (Suc (Suc (Suc (Suc 0)))) ?ts iterx = Return (elem, ?berr)"
    using ReadAny_in_order_until_first_error
      [where ts = ?ts and iterz = ?b and iter = ?b and n = "Suc (Suc (Suc (Suc 0)))"
         and ret = None and it = ?berr,
         THEN conjunct2, THEN conjunct2, THEN conjunct2, THEN conjunct2, THEN conjunct2,
         THEN conjunct1]
      b1 evb by blast
  have tc: "\<exists>kws.
        fieldsParsed (Suc (Suc (Suc (Suc 0)))) ?ts ''a'' (?c\<lparr>head := 5\<rparr>) kws [] (?c\<lparr>head := 7\<rparr>)
        \<and> map_v [''a'' \<mapsto> uint64_v 1] = map_v (foldl assign Map.empty kws)"
    using ReadAny_in_order_until_first_error
      [where ts = ?ts and iterz = ?c and iter = ?c and n = "Suc (Suc (Suc (Suc 0)))"
         and field = "''a''" and iterf = "?c\<lparr>head := 5\<rparr>"
         and ret = "Some (MakeAny (map_v [''a'' \<mapsto> uint64_v 1]))" and it = "?c\<lparr>head := 7\<rparr>",
         THEN conjunct2, THEN conjunct2, THEN conjunct2, THEN conjunct2, THEN conjunct2,
         THEN conjunct2]
      c1 c2 evc by blast
  from a2 ra b2 rb c3 rc rd re evb tb evc tc show ?thesis
    by (intro conjI)
qed

text \<open>
  C10. When the parse of a nested element or field leaves an error in the error slot,
  \<^verbatim>\<open>ReadAny\<close> returns the nil pointer, whatever has been accumulated in the rounds
  before (\<open>vs\<close>, \<open>kvs\<close>), not a partly built sequence or mapping. On an unexpected
  kind it returns a non-nil \<^verbatim>\<open>Any\<close> that holds nil, with the iterator that
  \<^verbatim>\<open>reportError\<close> leaves. And a nil result never comes without an error in the slot.
\<close>

theorem ReadAny_nil_on_nested_error:
  "(WhatIsNext ts iterz = (Array, iter) \<and> elementsParsed n ts iter vs iter'
      \<and> ReadArray ts iter' = (True, itera) \<and> ReadAny n ts itera = Return (element, iterb)
      \<and> Error iterb \<noteq> None \<longrightarrow>
      (\<forall>k. ReadAny (Suc (Suc n) + length vs + k) ts iterz = Return (None, iterb)))
   \<and> (WhatIsNext ts iterz = (Object, iter) \<and> ReadObject ts iter = (field, iterf)
      \<and> fieldsParsed n ts field iterf kvs field' iter' \<and> field' \<noteq> []
      \<and> ReadAny n ts iter' = Return (element, iterb) \<and> Error iterb \<noteq> None \<longrightarrow>
      (\<forall>k. ReadAny (Suc (Suc n) + length kvs + k) ts iterz = Return (None, iterb)))
   \<and> (WhatIsNext ts iterz = (OtherValueType j, iter) \<longrightarrow>
      (\<forall>k. ReadAny (Suc k) ts iterz =
            Return (Some (MakeAny nil_v), reportError ts ''ReadAny''
              (''unexpected value type: '' @ formatValueType ts (OtherValueType j)) iter)))
   \<and> (\<forall>m ret it. ReadAny m ts iterz = Return (ret, it) \<and> ret = None \<longrightarrow> Error it \<noteq> None)"
proof (intro conjI impI allI)
  fix k
  assume "WhatIsNext ts iterz = (Array, iter) \<and> elementsParsed n ts iter vs iter'
      \<and> ReadArray ts iter' = (True, itera) \<and> ReadAny n ts itera = Return (element, iterb)
      \<and> Error iterb \<noteq> None"
  then show "ReadAny (Suc (Suc n) + length vs + k) ts iterz = Return (None, iterb)"
    using ReadAny_array_error [of ts iterz iter n vs iter' itera element iterb k] by blast
next
  fix k
  assume "WhatIsNext ts iterz = (Object, iter) \<and> ReadObject ts iter = (field, iterf)
      \<and> fieldsParsed n ts field iterf kvs field' iter' \<and> field' \<noteq> []
      \<and> ReadAny n ts iter' = Return (element, iterb) \<and> Error iterb \<noteq> None"
  then show "ReadAny (Suc (Suc n) + length kvs + k) ts iterz = Return (None, iterb)"
    using ReadAny_object_error [of ts iterz iter field iterf n kvs field' iter' element iterb k]
    by blast
next
  fix k
  assume "WhatIsNext ts iterz = (OtherValueType j, iter)"
  then show "ReadAny (Suc k) ts iterz =
      Return (Some (MakeAny nil_v), reportError ts ''ReadAny''
        (''unexpected value type: '' @ formatValueType ts (OtherValueType j)) iter)"
    by (rule ReadAny_other_kind)
next
  fix m ret it
  assume "ReadAny m ts iterz = Return (ret, it) \<and> ret = None"
  then show "Error it \<noteq> None"
    using ReadAny_nil_error [of m ts iterz it] by blast
qed

text \<open>
  The documents \<^verbatim>\<open>[1,x,3]\<close>, \<^verbatim>\<open>{"a":x}\<close> and \<^verbatim>\<open>x\<close>, read with the small
  token source.
\<close>

theorem ReadAny_nil_on_nested_error_witness:
  "elementsParsed (Suc 0) sampleTokens (ParseString ''[1,x,3]'') [uint64_v 1]
      ((ParseString ''[1,x,3]'')\<lparr>head := 2\<rparr>)
   \<and> ReadAny (Suc 0) sampleTokens ((ParseString ''[1,x,3]'')\<lparr>head := 3\<rparr>) =
      Return (Some (MakeAny nil_v), (ParseString ''[1,x,3]'')
        \<lparr>head := 3, Error := Some (errorString ''ReadAny: unexpected value type: 0'')\<rparr>)
   \<and> ReadAny (Suc (Suc (Suc 0)) + length [uint64_v 1] + 0) sampleTokens (ParseString ''[1,x,3]'') =
      Return (None, (ParseString ''[1,x,3]'')
        \<lparr>head := 3, Error := Some (errorString ''ReadAny: unexpected value type: 0'')\<rparr>)
   \<and> ReadAny (Suc (Suc (Suc 0)) + length ([] :: (string \<times> value) list) + 0) sampleTokens
        (ParseString (sampleObject ''x'')) =
      Return (None, (ParseString (sampleObject ''x''))
        \<lparr>head := 5, Error := Some (errorString ''ReadAny: unexpected value type: 0'')\<rparr>)
   \<and> ReadAny (Suc 0) sampleTokens (ParseString ''x'') =
      Return (Some (MakeAny nil_v), (ParseString ''x'')
        \<lparr>Error := Some (errorString ''ReadAny: unexpected value type: 0'')\<rparr>)
   \<and> ReadAny (Suc (Suc (Suc (Suc 0)))) sampleTokens (ParseString ''[1,x,3]'') =
      Return (None, (ParseString ''[1,x,3]'')
        \<lparr>head := 3, Error := Some (errorString ''ReadAny: unexpected value type: 0'')\<rparr>)
   \<and> Error ((ParseString ''[1,x,3]'')
        \<lparr>head := 3, Error := Some (errorString ''ReadAny: unexpected value type: 0'')\<rparr>) \<noteq> None"
proof -
  let ?ts = sampleTokens
  let ?b = "ParseString ''[1,x,3]''"
  let ?berr = "?b\<lparr>head := 3, Error := Some (errorString ''ReadAny: unexpected value type: 0'')\<rparr>"
  let ?d = "ParseString (sampleObject ''x'')"
  let ?derr = "?d\<lparr>head := 5, Error := Some (errorString ''ReadAny: unexpected value type: 0'')\<rparr>"
  let ?e = "ParseString ''x''"
  have b1: "WhatIsNext ?ts ?b = (Array, ?b)"
    and b2: "elementsParsed (Suc 0) ?ts ?b [uint64_v 1] (?b\<lparr>head := 2\<rparr>)"
    and b3: "ReadArray ?ts (?b\<lparr>head := 2\<rparr>) = (True, ?b\<lparr>head := 3\<rparr>)"
    and b4: "ReadAny (Suc 0) ?ts (?b\<lparr>head := 3\<rparr>) = Return (Some (MakeAny nil_v), ?berr)"
    and b5: "Error ?berr \<noteq> None"
    and b6: "ReadAny (Suc (Suc (Suc (Suc 0)))) ?ts ?b = Return (None, ?berr)"
    by (simp_all add: sample_defs)
  have d1: "WhatIsNext ?ts ?d = (Object, ?d)"
    and d2: "ReadObject ?ts ?d = (''a'', ?d\<lparr>head := 5\<rparr>)"
    and d3: "fieldsParsed (Suc 0) ?ts ''a'' (?d\<lparr>head := 5\<rparr>) [] ''a'' (?d\<lparr>head := 5\<rparr>)"
    and d4: "''a'' \<noteq> []"
    and d5: "ReadAny (Suc 0) ?ts (?d\<lparr>head := 5\<rparr>) = Return (Some (MakeAny nil_v), ?derr)"
    and d6: "Error ?derr \<noteq> None"
    by (simp_all add: sample_defs sampleObject_def)
  have e1: "WhatIsNext ?ts ?e = (OtherValueType 0, ?e)"
    and e2: "reportError ?ts ''ReadAny''
        (''unexpected value type: '' @ formatValueType ?ts (OtherValueType 0)) ?e =
      ?e\<lparr>Error := Some (errorString ''ReadAny: unexpected value type: 0'')\<rparr>"
    by (simp_all add: sample_defs)
  have rb: "ReadAny (Suc (Suc (Suc 0)) + length [uint64_v 1] + 0) ?ts ?b = Return (None, ?berr)"
    using ReadAny_nil_on_nested_error
      [where ts = ?ts and iterz = ?b and iter = ?b and n = "Suc 0"
         and vs = "[uint64_v 1]" and iter' = "?b\<lparr>head := 2\<rparr>"
         and itera = "?b\<lparr>head := 3\<rparr>" and element = "Some (MakeAny nil_v)"
         and iterb = ?berr, THEN conjunct1]
      b1 b2 b3 b4 b5 by blast
  have rd: "ReadAny (Suc (Suc (Suc 0)) + length ([] :: (string \<times> value) list) + 0) ?ts ?d =
      Return (None, ?derr)"
    using ReadAny_nil_on_nested_error
      [where ts = ?ts and iterz = ?d and iter = ?d and n = "Suc 0"
         and field = "''a''" and iterf = "?d\<lparr>head := 5\<rparr>"
         and kvs = "[]" and field' = "''a''" and iter' = "?d\<lparr>head := 5\<rparr>"
         and element = "Some (MakeAny nil_v)" and iterb = ?derr,
         THEN conjunct2, THEN conjunct1]
      d1 d2 d3 d4 d5 d6 by blast
  have re: "ReadAny (Suc 0) ?ts ?e =
      Return (Some (MakeAny nil_v),
        ?e\<lparr>Error := Some (errorString ''ReadAny: unexpected value type: 0'')\<rparr>)"
    using ReadAny_nil_on_nested_error
      [where ts = ?ts and iterz = ?e and iter = ?e and j = 0,
         THEN conjunct2, THEN conjunct2, THEN conjunct1]
      e1 e2 by simp
  have rf: "Error ?berr \<noteq> None"
    using ReadAny_nil_on_nested_error
      [where ts = ?ts and iterz = ?b, THEN conjunct2, THEN conjunct2, THEN conjunct2]
      b6 by blast
  from b2 b4 rb rd re b6 rf show ?thesis
    by (intro conjI)
qed

section \<open>Registered decoders and the compiler's dispatch\<close>

text \<open>
  C2, amended. For every type whose name is not \<^verbatim>\<open>jsoniter.Any\<close>, a decoder registered
  under the type's name, by \<^verbatim>\<open>RegisterTypeDecoder\<close> or found in \<^verbatim>\<open>typeDecoders\<close>, is
  what \<^verbatim>\<open>decoderOfPtr\<close> returns, whatever the type's kind. For the type named
  \<^verbatim>\<open>jsoniter.Any\<close> it returns the any decoder, also when a decoder is registered
  under that name.
\<close>

theorem registered_decoder_precedence:
  "(TypeString t \<noteq> ''jsoniter.Any'' \<longrightarrow>
      decoderOfPtr dos (RegisterTypeDecoder (TypeString t) f G) t = Return (Inr (funcDecoder f)))
   \<and> (TypeString t \<noteq> ''jsoniter.Any'' \<and> typeDecoders G (TypeString t) = Some d \<longrightarrow>
      decoderOfPtr dos G t = Return (Inr d))
   \<and> (TypeString t = ''jsoniter.Any'' \<longrightarrow>
      decoderOfPtr dos (RegisterTypeDecoder (TypeString t) f G) t = Return (Inr anyDecoder))"
  by (simp add: decoderOfPtr_Any decoderOfPtr_registered RegisterTypeDecoder_def)

text \<open>A decoder registered for \<^verbatim>\<open>time.Time\<close>, and one registered for \<^verbatim>\<open>jsoniter.Any\<close>.\<close>

theorem registered_decoder_precedence_witness:
  "TypeString Time_t \<noteq> ''jsoniter.Any''
   \<and> decoderOfPtr noStructs (RegisterTypeDecoder (TypeString Time_t) 7 init) Time_t =
       Return (Inr (funcDecoder 7))
   \<and> typeDecoders (RegisterTypeDecoder ''time.Time'' 7 init) (TypeString Time_t) = Some (funcDecoder 7)
   \<and> decoderOfPtr noStructs (RegisterTypeDecoder ''time.Time'' 7 init) Time_t =
       Return (Inr (funcDecoder 7))
   \<and> TypeString Any_t = ''jsoniter.Any''
   \<and> decoderOfPtr noStructs (RegisterTypeDecoder (TypeString Any_t) 7 init) Any_t =
       Return (Inr anyDecoder)"
proof -
  have n: "TypeString Time_t \<noteq> ''jsoniter.Any''"
    and r: "typeDecoders (RegisterTypeDecoder ''time.Time'' 7 init) (TypeString Time_t) =
        Some (funcDecoder 7)"
    and a: "TypeString Any_t = ''jsoniter.Any''"
    by (simp_all add: type_defs RegisterTypeDecoder_def)
  from registered_decoder_precedence [of Time_t noStructs 7 init, THEN conjunct1] n
  have 1: "decoderOfPtr noStructs (RegisterTypeDecoder (TypeString Time_t) 7 init) Time_t =
       Return (Inr (funcDecoder 7))" by simp
  from registered_decoder_precedence
    [of Time_t noStructs _ "RegisterTypeDecoder ''time.Time'' 7 init" "funcDecoder 7",
      THEN conjunct2, THEN conjunct1] n r
  have 2: "decoderOfPtr noStructs (RegisterTypeDecoder ''time.Time'' 7 init) Time_t =
       Return (Inr (funcDecoder 7))" by simp
  from registered_decoder_precedence [of Any_t noStructs 7 init, THEN conjunct2, THEN conjunct2] a
  have 3: "decoderOfPtr noStructs (RegisterTypeDecoder (TypeString Any_t) 7 init) Any_t =
       Return (Inr anyDecoder)" by simp
  from n 1 r 2 a 3 show ?thesis by (intro conjI)
qed

text \<open>
  C2 as stated fails for \<^verbatim>\<open>jsoniter.Any\<close>: with a decoder registered under this
  name, \<^verbatim>\<open>decoderOfPtr\<close> still returns the any decoder, not the registered one.
\<close>

theorem registered_Any_ignored_counterexample:
  "typeDecoders (RegisterTypeDecoder ''jsoniter.Any'' 7 init) (TypeString Any_t) = Some (funcDecoder 7)
   \<and> decoderOfPtr noStructs (RegisterTypeDecoder ''jsoniter.Any'' 7 init) Any_t = Return (Inr anyDecoder)
   \<and> anyDecoder \<noteq> funcDecoder 7"
  by (simp add: type_defs RegisterTypeDecoder_def decoderOfPtr.simps)

text \<open>
  C3, amended. For a pointee of kind map, with no decoder registered under its name and
  a name other than \<^verbatim>\<open>jsoniter.Any\<close>, the compiler looks at the value type only: when
  the value type compiles, the result is a map decoder around the value's decoder,
  whatever the key type; when it does not, the result is the value type's error,
  prefixed with \<^verbatim>\<open>[map]\<close>. The key type is never inspected.
\<close>

theorem map_compiles_by_value_type:
  "Kind t = reflect_Map \<and> Elem t = Some e \<and> TypeString t \<noteq> ''jsoniter.Any''
     \<and> typeDecoders G (TypeString t) = None \<longrightarrow>
   decoderOfPtr dos G t =
     (case decoderOfPtr dos G e of
        Return (Inl err) \<Rightarrow> Return (Inl (errorString (''[map]: '' @ Error_text err)))
      | Return (Inr decoder) \<Rightarrow> Return (Inr (mapDecoder t e decoder))
      | Panic \<Rightarrow> Panic
      | OutOfFuel \<Rightarrow> OutOfFuel)"
  by (auto simp: decoderOfPtr_by_kind decoderOfMap_value addTo_def
      split: outcome.splits sum.splits)

text \<open>The types \<^verbatim>\<open>map[int]string\<close> and \<^verbatim>\<open>map[string]chan int\<close>.\<close>

theorem map_compiles_by_value_type_witness:
  "Kind map_int_string_t = reflect_Map \<and> Elem map_int_string_t = Some string_t
   \<and> Key map_int_string_t = Some int_t
   \<and> TypeString map_int_string_t \<noteq> ''jsoniter.Any''
   \<and> typeDecoders init (TypeString map_int_string_t) = None
   \<and> decoderOfPtr noStructs init string_t = Return (Inr stringDecoder)
   \<and> decoderOfPtr noStructs init map_int_string_t =
        Return (Inr (mapDecoder map_int_string_t string_t stringDecoder))
   \<and> Kind map_string_chan_t = reflect_Map \<and> Elem map_string_chan_t = Some chan_int_t
   \<and> Key map_string_chan_t = Some string_t
   \<and> TypeString map_string_chan_t \<noteq> ''jsoniter.Any''
   \<and> typeDecoders init (TypeString map_string_chan_t) = None
   \<and> decoderOfPtr noStructs init chan_int_t =
        Return (Inl (errorString ''unsupported type: chan int''))
   \<and> decoderOfPtr noStructs init map_string_chan_t =
        Return (Inl (errorString ''[map]: unsupported type: chan int''))"
proof -
  have a: "Kind map_int_string_t = reflect_Map \<and> Elem map_int_string_t = Some string_t
      \<and> TypeString map_int_string_t \<noteq> ''jsoniter.Any''
      \<and> typeDecoders init (TypeString map_int_string_t) = None"
    and ak: "Key map_int_string_t = Some int_t"
    and av: "decoderOfPtr noStructs init string_t = Return (Inr stringDecoder)"
    by (simp_all add: type_defs init_def decoderOfPtr.simps)
  have b: "Kind map_string_chan_t = reflect_Map \<and> Elem map_string_chan_t = Some chan_int_t
      \<and> TypeString map_string_chan_t \<noteq> ''jsoniter.Any''
      \<and> typeDecoders init (TypeString map_string_chan_t) = None"
    and bk: "Key map_string_chan_t = Some string_t"
    and bv: "decoderOfPtr noStructs init chan_int_t =
        Return (Inl (errorString ''unsupported type: chan int''))"
    by (simp_all add: type_defs init_def decoderOfPtr.simps)
  from map_compiles_by_value_type [of map_int_string_t string_t init noStructs] a av
  have 1: "decoderOfPtr noStructs init map_int_string_t =
        Return (Inr (mapDecoder map_int_string_t string_t stringDecoder))"
    by simp
  from map_compiles_by_value_type [of map_string_chan_t chan_int_t init noStructs] b bv
  have 2: "decoderOfPtr noStructs init map_string_chan_t =
        Return (Inl (errorString ''[map]: unsupported type: chan int''))"
    by simp
  from a ak av 1 b bk bv 2 show ?thesis by blast
qed

text \<open>
  C3 as stated fails: \<^verbatim>\<open>map[int]string\<close> and \<^verbatim>\<open>map[interface {}]string\<close> have key
  types that are not text, and each compiles, as a pointee and behind a pointer root,
  to a map decoder and no error.
\<close>

theorem map_with_int_key_compiles_counterexample:
  "Kind map_int_string_t = reflect_Map
   \<and> Key map_int_string_t = Some int_t \<and> Kind int_t = reflect_Int \<and> Kind int_t \<noteq> reflect_String
   \<and> decoderOfPtr noStructs init map_int_string_t =
        Return (Inr (mapDecoder map_int_string_t string_t stringDecoder))
   \<and> decoderOfType noStructs init (PtrTo map_int_string_t) =
        Return (Inr (mapDecoder map_int_string_t string_t stringDecoder))
   \<and> Kind map_interface_string_t = reflect_Map
   \<and> Key map_interface_string_t = Some interface_t
   \<and> Kind interface_t = reflect_Interface \<and> Kind interface_t \<noteq> reflect_String
   \<and> decoderOfPtr noStructs init map_interface_string_t =
        Return (Inr (mapDecoder map_interface_string_t string_t stringDecoder))
   \<and> decoderOfType noStructs init (PtrTo map_interface_string_t) =
        Return (Inr (mapDecoder map_interface_string_t string_t stringDecoder))"
  by (simp add: type_defs init_def decoderOfPtr.simps decoderOfMap.simps decoderOfType_def
      addTo_def)

text \<open>
  C4. For a root type whose kind is not pointer, \<^verbatim>\<open>decoderOfType\<close> returns the error
  \<^verbatim>\<open>expect ptr\<close> and no decoder; for a root of kind pointer it returns what
  \<^verbatim>\<open>decoderOfPtr\<close> gives for the pointee, an error prefixed with \<^verbatim>\<open>ptr\<close>.
\<close>

theorem decoderOfType_expects_ptr:
  "(Kind t \<noteq> reflect_Ptr \<longrightarrow> decoderOfType dos G t = Return (Inl (errorString ''expect ptr'')))
   \<and> (Kind t = reflect_Ptr \<and> Elem t = Some e \<longrightarrow>
        decoderOfType dos G t = addTo ''ptr'' (decoderOfPtr dos G e))"
  by (cases "Kind t") (simp_all add: decoderOfType_def)

text \<open>The roots \<^verbatim>\<open>int\<close>, \<^verbatim>\<open>*int\<close> and \<^verbatim>\<open>*chan int\<close>.\<close>

theorem decoderOfType_expects_ptr_witness:
  "Kind int_t \<noteq> reflect_Ptr
   \<and> decoderOfType noStructs init int_t = Return (Inl (errorString ''expect ptr''))
   \<and> Kind (PtrTo int_t) = reflect_Ptr \<and> Elem (PtrTo int_t) = Some int_t
   \<and> decoderOfType noStructs init (PtrTo int_t) = addTo ''ptr'' (decoderOfPtr noStructs init int_t)
   \<and> addTo ''ptr'' (decoderOfPtr noStructs init int_t) = Return (Inr intDecoder)
   \<and> decoderOfType noStructs init (PtrTo chan_int_t) =
        Return (Inl (errorString ''ptr: unsupported type: chan int''))"
proof -
  have a: "Kind int_t \<noteq> reflect_Ptr"
    and b: "Kind (PtrTo int_t) = reflect_Ptr \<and> Elem (PtrTo int_t) = Some int_t"
    and c: "Kind (PtrTo chan_int_t) = reflect_Ptr \<and> Elem (PtrTo chan_int_t) = Some chan_int_t"
    by (simp_all add: type_defs)
  have d: "addTo ''ptr'' (decoderOfPtr noStructs init int_t) = Return (Inr intDecoder)"
    and e: "addTo ''ptr'' (decoderOfPtr noStructs init chan_int_t) =
        Return (Inl (errorString ''ptr: unsupported type: chan int''))"
    by (simp_all add: type_defs init_def decoderOfPtr.simps addTo_def)
  from decoderOfType_expects_ptr [of int_t noStructs init, THEN conjunct1] a
  have 1: "decoderOfType noStructs init int_t = Return (Inl (errorString ''expect ptr''))"
    by simp
  from decoderOfType_expects_ptr [of "PtrTo int_t" noStructs init int_t, THEN conjunct2] b
  have 2: "decoderOfType noStructs init (PtrTo int_t) =
      addTo ''ptr'' (decoderOfPtr noStructs init int_t)"
    by simp
  from decoderOfType_expects_ptr [of "PtrTo chan_int_t" noStructs init chan_int_t, THEN conjunct2] c e
  have 3: "decoderOfType noStructs init (PtrTo chan_int_t) =
        Return (Inl (errorString ''ptr: unsupported type: chan int''))"
    by simp
  from a 1 b 2 d 3 show ?thesis by blast
qed

text \<open>
  C9. For a pointee of kind interface, with no decoder registered under its name and a
  name other than \<^verbatim>\<open>jsoniter.Any\<close>, \<^verbatim>\<open>decoderOfPtr\<close> succeeds with the interface
  decoder, and so does \<^verbatim>\<open>decoderOfType\<close> for a pointer to it: no error of an
  unsupported type.
\<close>

theorem interface_kind_supported:
  "Kind t = reflect_Interface \<and> TypeString t \<noteq> ''jsoniter.Any''
     \<and> typeDecoders G (TypeString t) = None \<longrightarrow>
   decoderOfPtr dos G t = Return (Inr interfaceDecoder)
   \<and> (\<forall>p. Kind p = reflect_Ptr \<and> Elem p = Some t \<longrightarrow>
        decoderOfType dos G p = Return (Inr interfaceDecoder))"
  by (simp add: decoderOfPtr_by_kind decoderOfType_def addTo_def)

text \<open>The type \<^verbatim>\<open>interface {}\<close> and a pointer to it.\<close>

theorem interface_kind_supported_witness:
  "Kind interface_t = reflect_Interface \<and> TypeString interface_t \<noteq> ''jsoniter.Any''
   \<and> typeDecoders init (TypeString interface_t) = None
   \<and> decoderOfPtr noStructs init interface_t = Return (Inr interfaceDecoder)
   \<and> Kind (PtrTo interface_t) = reflect_Ptr \<and> Elem (PtrTo interface_t) = Some interface_t
   \<and> decoderOfType noStructs init (PtrTo interface_t) = Return (Inr interfaceDecoder)"
proof -
  have h: "Kind interface_t = reflect_Interface \<and> TypeString interface_t \<noteq> ''jsoniter.Any''
     \<and> typeDecoders init (TypeString interface_t) = None"
    by (simp add: type_defs init_def)
  have p: "Kind (PtrTo interface_t) = reflect_Ptr \<and> Elem (PtrTo interface_t) = Some interface_t"
    by (simp add: PtrTo_def)
  from interface_kind_supported [of interface_t init noStructs] h p
  have "decoderOfPtr noStructs init interface_t = Return (Inr interfaceDecoder)"
    and "decoderOfType noStructs init (PtrTo interface_t) = Return (Inr interfaceDecoder)"
    by blast+
  with h p show ?thesis by blast
qed

section \<open>The cache\<close>

text \<open>
  C6. In every state in which \<^verbatim>\<open>DECODERS\<close> points to a map, and for every type and
  decoder, \<^verbatim>\<open>addDecoderToCache\<close> returns, with \<^verbatim>\<open>DECODERS\<close> pointing to a new map
  that is the old one plus the new entry. Afterwards \<^verbatim>\<open>getDecoderFromCache\<close> gives
  the inserted decoder for the inserted type and, for every other type, what it gave
  before; every map that existed before, the previous snapshot among them, is as it
  was; and the registry is untouched.
\<close>

theorem addDecoderToCache_copy_on_write:
  assumes "DECODERS G < length (maps G)"
  shows "\<exists>G'. addDecoderToCache cacheKey decoder G = Return G'
     \<and> getDecoderFromCache cacheKey G' = Return decoder
     \<and> (\<forall>other. other \<noteq> cacheKey \<longrightarrow>
           getDecoderFromCache other G' = getDecoderFromCache other G)
     \<and> deref G' (DECODERS G') = Some ((maps G ! DECODERS G)(cacheKey \<mapsto> decoder))
     \<and> DECODERS G' \<noteq> DECODERS G
     \<and> (\<forall>ptr < length (maps G). deref G' ptr = deref G ptr)
     \<and> DECODERS G' < length (maps G')
     \<and> typeDecoders G' = typeDecoders G \<and> fieldDecoders G' = fieldDecoders G
     \<and> extensions G' = extensions G"
proof -
  let ?G' = "G\<lparr>maps := maps G @ [(maps G ! DECODERS G)(cacheKey \<mapsto> decoder)],
               DECODERS := length (maps G)\<rparr>"
  have 1: "addDecoderToCache cacheKey decoder G = Return ?G'"
    by (rule addDecoderToCache_once [OF assms])
  have 2: "getDecoderFromCache cacheKey ?G' = Return decoder"
    by (simp add: getDecoderFromCache_def LoadPointer_def deref_def)
  have 3: "\<forall>other. other \<noteq> cacheKey \<longrightarrow>
           getDecoderFromCache other ?G' = getDecoderFromCache other G"
    using assms by (simp add: getDecoderFromCache_def LoadPointer_def deref_def)
  have 4: "deref ?G' (DECODERS ?G') = Some ((maps G ! DECODERS G)(cacheKey \<mapsto> decoder))"
    by (simp add: deref_def)
  have 5: "DECODERS ?G' \<noteq> DECODERS G"
    using assms by simp
  have 6: "\<forall>ptr < length (maps G). deref ?G' ptr = deref G ptr"
    by (simp add: deref_def nth_append)
  from 1 2 3 4 5 6 show ?thesis
    by (intro exI [of _ ?G']) simp
qed

text \<open>The first insertion after \<^verbatim>\<open>init\<close>.\<close>

theorem addDecoderToCache_copy_on_write_witness:
  "DECODERS init < length (maps init)
   \<and> (\<exists>G'. addDecoderToCache int_t (Some intDecoder) init = Return G'
     \<and> getDecoderFromCache int_t G' = Return (Some intDecoder)
     \<and> getDecoderFromCache string_t G' = getDecoderFromCache string_t init
     \<and> deref G' 0 = deref init 0
     \<and> DECODERS G' \<noteq> DECODERS init)
   \<and> getDecoderFromCache string_t init = Return None
   \<and> deref init 0 = Some Map.empty"
proof -
  have w: "DECODERS init < length (maps init)"
    and s: "string_t \<noteq> int_t" and z: "0 < length (maps init)"
    and g: "getDecoderFromCache string_t init = Return None"
    and d: "deref init 0 = Some Map.empty"
    by (simp_all add: init_def type_defs getDecoderFromCache_def LoadPointer_def deref_def)
  from addDecoderToCache_copy_on_write [OF w, of int_t "Some intDecoder"] s z
  have "\<exists>G'. addDecoderToCache int_t (Some intDecoder) init = Return G'
     \<and> getDecoderFromCache int_t G' = Return (Some intDecoder)
     \<and> getDecoderFromCache string_t G' = getDecoderFromCache string_t init
     \<and> deref G' 0 = deref init 0
     \<and> DECODERS G' \<noteq> DECODERS init"
    by blast
  with w g d show ?thesis by blast
qed

section \<open>The entry point and the optional decoder\<close>

text \<open>
  C7. When \<^verbatim>\<open>Read\<close> finds no decoder in the cache and the compilation fails, it
  returns with the error in the iterator's error slot and with memory, registry and
  cache exactly as they were: the cache still has no decoder for the type, and a second
  \<^verbatim>\<open>Read\<close> for the same type compiles again and fails with the same error.
\<close>

theorem Read_compile_error_not_cached:
  assumes "itype obj = Some t" and "Elem t = Some cacheKey"
    and "getDecoderFromCache cacheKey G = Return None"
    and "decoderOfType dos G t = Return (Inl err)"
  shows "Read rt dos obj iter hp G = Return (iter\<lparr>Error := Some err\<rparr>, hp, G)
     \<and> getDecoderFromCache cacheKey G = Return None
     \<and> Read rt dos obj (iter\<lparr>Error := Some err\<rparr>) hp G =
         Return (iter\<lparr>Error := Some err\<rparr>, hp, G)"
  using assms by (simp add: Read_def)

text \<open>\<^verbatim>\<open>Read\<close> into a \<^verbatim>\<open>*chan int\<close>, twice.\<close>

theorem Read_compile_error_not_cached_witness:
  "itype \<lparr>itype = Some (PtrTo chan_int_t), iword = 16\<rparr> = Some (PtrTo chan_int_t)
   \<and> Elem (PtrTo chan_int_t) = Some chan_int_t
   \<and> getDecoderFromCache chan_int_t init = Return None
   \<and> decoderOfType noStructs init (PtrTo chan_int_t) =
        Return (Inl (errorString ''ptr: unsupported type: chan int''))
   \<and> Read sampleRuntime noStructs \<lparr>itype = Some (PtrTo chan_int_t), iword = 16\<rparr>
        (ParseString ''1'') emptyHeap init =
      Return ((ParseString ''1'')\<lparr>Error := Some (errorString ''ptr: unsupported type: chan int'')\<rparr>,
              emptyHeap, init)
   \<and> Read sampleRuntime noStructs \<lparr>itype = Some (PtrTo chan_int_t), iword = 16\<rparr>
        ((ParseString ''1'')\<lparr>Error := Some (errorString ''ptr: unsupported type: chan int'')\<rparr>)
        emptyHeap init =
      Return ((ParseString ''1'')\<lparr>Error := Some (errorString ''ptr: unsupported type: chan int'')\<rparr>,
              emptyHeap, init)"
proof -
  let ?obj = "\<lparr>itype = Some (PtrTo chan_int_t), iword = 16\<rparr>"
  have a: "itype ?obj = Some (PtrTo chan_int_t)"
    and b: "Elem (PtrTo chan_int_t) = Some chan_int_t"
    and c: "getDecoderFromCache chan_int_t init = Return None"
    and d: "decoderOfType noStructs init (PtrTo chan_int_t) =
        Return (Inl (errorString ''ptr: unsupported type: chan int''))"
    by (simp_all add: type_defs init_def getDecoderFromCache_def LoadPointer_def deref_def
          decoderOfType_def decoderOfPtr.simps addTo_def)
  from Read_compile_error_not_cached [OF a b c d, of sampleRuntime "ParseString ''1''" emptyHeap]
    a b c d
  show ?thesis by simp
qed

text \<open>
  C5. The optional decoder, at every target address \<open>ptr\<close>. On a null token it writes
  nil at \<open>ptr\<close> and changes nothing else. On another token, with nil stored at
  \<open>ptr\<close>: it allocates storage that is fresh (not nil, beyond every address given out
  before, zeroed), runs the value decoder on it, and then stores its address at \<open>ptr\<close>.
  On another token, with an address stored at \<open>ptr\<close>: it does what the value decoder
  does at that address and nothing more, no store and no allocation of its own, so the
  stored address is as the value decoder leaves it: unchanged, when the value decoder
  does not write to \<open>ptr\<close>.
\<close>

theorem optionalDecoder_decode_cases:
  "(ReadNil (tokens rt) iter = (True, itern) \<longrightarrow>
      decode rt (optionalDecoder valueType valueDecoder) ptr (iter, hp) =
        (itern, hp\<lparr>cells := (cells hp)(ptr := 0)\<rparr>))
   \<and> (ReadNil (tokens rt) iter = (False, itern) \<and> cells hp ptr = 0 \<longrightarrow>
      (\<exists>fresh hpa iterd hpd.
         reflect_New rt valueType hp = (fresh, hpa)
         \<and> fresh \<noteq> 0 \<and> allocated hp < fresh \<and> fresh \<le> allocated hpa
         \<and> cells hpa fresh = 0
         \<and> decode rt valueDecoder fresh (itern, hpa) = (iterd, hpd)
         \<and> decode rt (optionalDecoder valueType valueDecoder) ptr (iter, hp) =
             (iterd, hpd\<lparr>cells := (cells hpd)(ptr := fresh)\<rparr>)))
   \<and> (ReadNil (tokens rt) iter = (False, itern) \<and> cells hp ptr \<noteq> 0 \<longrightarrow>
      decode rt (optionalDecoder valueType valueDecoder) ptr (iter, hp) =
        decode rt valueDecoder (cells hp ptr) (itern, hp)
      \<and> (cells (snd (decode rt valueDecoder (cells hp ptr) (itern, hp))) ptr = cells hp ptr \<longrightarrow>
           cells (snd (decode rt (optionalDecoder valueType valueDecoder) ptr (iter, hp))) ptr
             = cells hp ptr)
      \<and> (allocated (snd (decode rt valueDecoder (cells hp ptr) (itern, hp))) = allocated hp \<longrightarrow>
           allocated (snd (decode rt (optionalDecoder valueType valueDecoder) ptr (iter, hp)))
             = allocated hp))"
proof (intro conjI impI)
  assume "ReadNil (tokens rt) iter = (True, itern)"
  then show "decode rt (optionalDecoder valueType valueDecoder) ptr (iter, hp) =
        (itern, hp\<lparr>cells := (cells hp)(ptr := 0)\<rparr>)"
    by simp
next
  assume a: "ReadNil (tokens rt) iter = (False, itern) \<and> cells hp ptr = 0"
  obtain fresh hpa where n: "reflect_New rt valueType hp = (fresh, hpa)"
    by (cases "reflect_New rt valueType hp")
  obtain iterd hpd where d: "decode rt valueDecoder fresh (itern, hpa) = (iterd, hpd)"
    by (cases "decode rt valueDecoder fresh (itern, hpa)")
  from n have f: "fresh \<noteq> 0" "allocated hp < fresh" "fresh \<le> allocated hpa" "cells hpa fresh = 0"
    by (auto simp: reflect_New_def Let_def)
  from a n d have "decode rt (optionalDecoder valueType valueDecoder) ptr (iter, hp) =
             (iterd, hpd\<lparr>cells := (cells hpd)(ptr := fresh)\<rparr>)"
    by simp
  with n d f show "\<exists>fresh hpa iterd hpd.
         reflect_New rt valueType hp = (fresh, hpa)
         \<and> fresh \<noteq> 0 \<and> allocated hp < fresh \<and> fresh \<le> allocated hpa
         \<and> cells hpa fresh = 0
         \<and> decode rt valueDecoder fresh (itern, hpa) = (iterd, hpd)
         \<and> decode rt (optionalDecoder valueType valueDecoder) ptr (iter, hp) =
             (iterd, hpd\<lparr>cells := (cells hpd)(ptr := fresh)\<rparr>)"
    by blast
next
  assume a: "ReadNil (tokens rt) iter = (False, itern) \<and> cells hp ptr \<noteq> 0"
  then show e: "decode rt (optionalDecoder valueType valueDecoder) ptr (iter, hp) =
        decode rt valueDecoder (cells hp ptr) (itern, hp)"
    by simp
  assume "cells (snd (decode rt valueDecoder (cells hp ptr) (itern, hp))) ptr = cells hp ptr"
  with e show "cells (snd (decode rt (optionalDecoder valueType valueDecoder) ptr (iter, hp))) ptr
             = cells hp ptr"
    by simp
next
  assume a: "ReadNil (tokens rt) iter = (False, itern) \<and> cells hp ptr \<noteq> 0"
  then have e: "decode rt (optionalDecoder valueType valueDecoder) ptr (iter, hp) =
        decode rt valueDecoder (cells hp ptr) (itern, hp)"
    by simp
  assume "allocated (snd (decode rt valueDecoder (cells hp ptr) (itern, hp))) = allocated hp"
  with e show "allocated (snd (decode rt (optionalDecoder valueType valueDecoder) ptr (iter, hp)))
             = allocated hp"
    by simp
qed

text \<open>
  A \<^verbatim>\<open>*uint64\<close> at address 3: \<^verbatim>\<open>null\<close> into a populated pointer, \<^verbatim>\<open>7\<close> into a nil
  pointer, and \<^verbatim>\<open>7\<close> into a pointer to address 5.
\<close>

theorem optionalDecoder_decode_cases_witness:
  "ReadNil (tokens sampleRuntime) (ParseString ''null'') = (True, (ParseString ''null'')\<lparr>head := 4\<rparr>)
   \<and> decode sampleRuntime (optionalDecoder uint64_t uint64Decoder) 3
        (ParseString ''null'', emptyHeap\<lparr>cells := (cells emptyHeap)(3 := 5)\<rparr>) =
      ((ParseString ''null'')\<lparr>head := 4\<rparr>,
       emptyHeap\<lparr>cells := (cells emptyHeap)(3 := 5)\<rparr>
         \<lparr>cells := (cells (emptyHeap\<lparr>cells := (cells emptyHeap)(3 := 5)\<rparr>))(3 := 0)\<rparr>)
   \<and> ReadNil (tokens sampleRuntime) (ParseString ''7,'') = (False, ParseString ''7,'')
   \<and> cells emptyHeap 3 = 0
   \<and> (\<exists>fresh hpa iterd hpd.
         reflect_New sampleRuntime uint64_t emptyHeap = (fresh, hpa)
         \<and> fresh \<noteq> 0 \<and> allocated emptyHeap < fresh \<and> fresh \<le> allocated hpa
         \<and> cells hpa fresh = 0
         \<and> decode sampleRuntime uint64Decoder fresh (ParseString ''7,'', hpa) = (iterd, hpd)
         \<and> decode sampleRuntime (optionalDecoder uint64_t uint64Decoder) 3
              (ParseString ''7,'', emptyHeap) =
             (iterd, hpd\<lparr>cells := (cells hpd)(3 := fresh)\<rparr>))
   \<and> cells (snd (decode sampleRuntime (optionalDecoder uint64_t uint64Decoder) 3
        (ParseString ''7,'', emptyHeap))) 3 = 9
   \<and> cells (snd (decode sampleRuntime (optionalDecoder uint64_t uint64Decoder) 3
        (ParseString ''7,'', emptyHeap))) 9 = 7
   \<and> cells (emptyHeap\<lparr>cells := (cells emptyHeap)(3 := 5)\<rparr>) 3 \<noteq> 0
   \<and> decode sampleRuntime (optionalDecoder uint64_t uint64Decoder) 3
        (ParseString ''7,'', emptyHeap\<lparr>cells := (cells emptyHeap)(3 := 5)\<rparr>) =
      decode sampleRuntime uint64Decoder 5
        (ParseString ''7,'', emptyHeap\<lparr>cells := (cells emptyHeap)(3 := 5)\<rparr>)
   \<and> cells (snd (decode sampleRuntime (optionalDecoder uint64_t uint64Decoder) 3
        (ParseString ''7,'', emptyHeap\<lparr>cells := (cells emptyHeap)(3 := 5)\<rparr>))) 3 = 5
   \<and> cells (snd (decode sampleRuntime (optionalDecoder uint64_t uint64Decoder) 3
        (ParseString ''7,'', emptyHeap\<lparr>cells := (cells emptyHeap)(3 := 5)\<rparr>))) 5 = 7
   \<and> allocated (snd (decode sampleRuntime (optionalDecoder uint64_t uint64Decoder) 3
        (ParseString ''7,'', emptyHeap\<lparr>cells := (cells emptyHeap)(3 := 5)\<rparr>))) = allocated emptyHeap"
proof -
  let ?rt = sampleRuntime
  let ?opt = "optionalDecoder uint64_t uint64Decoder"
  let ?null = "ParseString ''null''"
  let ?seven = "ParseString ''7,''"
  let ?hp = "emptyHeap\<lparr>cells := (cells emptyHeap)(3 := 5)\<rparr>"
  note defs = sampleRuntime_def sampleOtherDecode_def emptyHeap_def sample_defs reflect_New_def
  have n: "ReadNil (tokens ?rt) ?null = (True, ?null\<lparr>head := 4\<rparr>)"
    and s: "ReadNil (tokens ?rt) ?seven = (False, ?seven)"
    and z: "cells emptyHeap 3 = 0" and p: "cells ?hp 3 \<noteq> 0" and p5: "cells ?hp 3 = 5"
    by (simp_all add: defs)
  have v: "decode ?rt uint64Decoder 5 (?seven, ?hp) =
      (?seven\<lparr>head := 1\<rparr>, ?hp\<lparr>cells := (cells ?hp)(5 := 7)\<rparr>)"
    by (simp add: defs)
  have v3: "cells (snd (decode ?rt uint64Decoder (cells ?hp 3) (?seven, ?hp))) 3 = cells ?hp 3"
    and va: "allocated (snd (decode ?rt uint64Decoder (cells ?hp 3) (?seven, ?hp))) = allocated ?hp"
    unfolding p5 v by simp_all
  from optionalDecoder_decode_cases [of ?rt ?null "?null\<lparr>head := 4\<rparr>" uint64_t uint64Decoder 3 ?hp,
      THEN conjunct1] n
  have 1: "decode ?rt ?opt 3 (?null, ?hp) = (?null\<lparr>head := 4\<rparr>, ?hp\<lparr>cells := (cells ?hp)(3 := 0)\<rparr>)"
    by simp
  from optionalDecoder_decode_cases [of ?rt ?seven ?seven uint64_t uint64Decoder 3 emptyHeap,
      THEN conjunct2, THEN conjunct1] s z
  have 2: "\<exists>fresh hpa iterd hpd.
         reflect_New ?rt uint64_t emptyHeap = (fresh, hpa)
         \<and> fresh \<noteq> 0 \<and> allocated emptyHeap < fresh \<and> fresh \<le> allocated hpa
         \<and> cells hpa fresh = 0
         \<and> decode ?rt uint64Decoder fresh (?seven, hpa) = (iterd, hpd)
         \<and> decode ?rt ?opt 3 (?seven, emptyHeap) = (iterd, hpd\<lparr>cells := (cells hpd)(3 := fresh)\<rparr>)"
    by simp
  have r2a: "cells (snd (decode ?rt ?opt 3 (?seven, emptyHeap))) 3 = 9"
    and r2b: "cells (snd (decode ?rt ?opt 3 (?seven, emptyHeap))) 9 = 7"
    by (simp_all add: defs)
  from optionalDecoder_decode_cases [of ?rt ?seven ?seven uint64_t uint64Decoder 3 ?hp,
      THEN conjunct2, THEN conjunct2] s p v3 va
  have 3: "decode ?rt ?opt 3 (?seven, ?hp) = decode ?rt uint64Decoder (cells ?hp 3) (?seven, ?hp)"
    and r3a: "cells (snd (decode ?rt ?opt 3 (?seven, ?hp))) 3 = cells ?hp 3"
    and r3b: "allocated (snd (decode ?rt ?opt 3 (?seven, ?hp))) = allocated ?hp"
    by blast+
  have r3c: "cells (snd (decode ?rt ?opt 3 (?seven, ?hp))) 5 = 7"
    unfolding 3 p5 v by simp
  have al: "allocated ?hp = allocated emptyHeap" by simp
  from n 1 s z 2 r2a r2b p 3 r3a r3b r3c show ?thesis
    unfolding p5 al by (intro conjI)
qed

end
